theory Spec2Isabelle
  imports Complex_Main
begin

section \<open>Numbers\<close>

text \<open>
  A JavaScript number is a double. It is modelled as a real number or one of the three
  special values \<^verbatim>\<open>Infinity\<close>, \<^verbatim>\<open>-Infinity\<close> and \<^verbatim>\<open>NaN\<close>. The special values follow
  the rules of the language (\<^verbatim>\<open>0 * Infinity\<close> is \<^verbatim>\<open>NaN\<close>, every comparison with \<^verbatim>\<open>NaN\<close>
  is false, \<^verbatim>\<open>1 / 0\<close> is \<^verbatim>\<open>Infinity\<close>). The result of an operation on finite values is
  the exact result rounded to the nearest double, ties to the even significand: a result
  too large becomes an infinity and a result too small becomes a subnormal or zero. Zero
  carries no sign; every divisor of the program is a sum of squares, a square root or a
  product of those, so a divisor that is zero is the positive zero, which is how
  division reads it here.
\<close>

datatype number = Fin real | PInf | NInf | NaN

text \<open>The nearest integer, the even one of two that are equally near.\<close>

definition round_half_even :: "real \<Rightarrow> int" where
  "round_half_even m =
     (let f = \<lfloor>m\<rfloor>
      in if m - of_int f < 1 / 2 then f
         else if 1 / 2 < m - of_int f then f + 1
         else if even f then f else f + 1)"

text \<open>
  The exponent of the doubles next to \<open>x\<close>, which is not below that of the subnormal
  ones, and the distance between two neighbours there: a double has 53 binary digits.
\<close>

definition binade :: "real \<Rightarrow> int" where
  "binade x = max \<lfloor>log 2 \<bar>x\<bar>\<rfloor> (- 1022)"

definition ulp :: "real \<Rightarrow> real" where
  "ulp x = 2 powr of_int (binade x - 52)"

text \<open>
  The double that a real result is stored as: the nearest multiple of the distance
  between neighbours, and an infinity when that is beyond the largest double.
\<close>

definition round64 :: "real \<Rightarrow> number" where
  "round64 x =
     (let y = of_int (round_half_even (x / ulp x)) * ulp x
      in if 2 ^ 1024 \<le> \<bar>y\<bar> then (if 0 < x then PInf else NInf) else Fin y)"

instantiation number :: "{plus, minus, uminus, times, divide, ord}"
begin

fun uminus_number :: "number \<Rightarrow> number" where
  "uminus_number (Fin x) = Fin (- x)"
| "uminus_number PInf = NInf"
| "uminus_number NInf = PInf"
| "uminus_number NaN = NaN"

fun plus_number :: "number \<Rightarrow> number \<Rightarrow> number" where
  "plus_number (Fin x) (Fin y) = round64 (x + y)"
| "plus_number NaN b = NaN"
| "plus_number a NaN = NaN"
| "plus_number PInf NInf = NaN"
| "plus_number NInf PInf = NaN"
| "plus_number PInf b = PInf"
| "plus_number NInf b = NInf"
| "plus_number a PInf = PInf"
| "plus_number a NInf = NInf"

definition minus_number :: "number \<Rightarrow> number \<Rightarrow> number" where
  "minus_number a b = a + (- b)"

fun times_number :: "number \<Rightarrow> number \<Rightarrow> number" where
  "times_number (Fin x) (Fin y) = round64 (x * y)"
| "times_number NaN b = NaN"
| "times_number a NaN = NaN"
| "times_number (Fin x) PInf = (if x = 0 then NaN else if 0 < x then PInf else NInf)"
| "times_number (Fin x) NInf = (if x = 0 then NaN else if 0 < x then NInf else PInf)"
| "times_number PInf (Fin y) = (if y = 0 then NaN else if 0 < y then PInf else NInf)"
| "times_number NInf (Fin y) = (if y = 0 then NaN else if 0 < y then NInf else PInf)"
| "times_number PInf PInf = PInf"
| "times_number PInf NInf = NInf"
| "times_number NInf PInf = NInf"
| "times_number NInf NInf = PInf"

fun divide_number :: "number \<Rightarrow> number \<Rightarrow> number" where
  "divide_number (Fin x) (Fin y) =
     (if y = 0 then (if x = 0 then NaN else if 0 < x then PInf else NInf)
      else round64 (x / y))"
| "divide_number NaN b = NaN"
| "divide_number a NaN = NaN"
| "divide_number (Fin x) PInf = Fin 0"
| "divide_number (Fin x) NInf = Fin 0"
| "divide_number PInf (Fin y) = (if 0 \<le> y then PInf else NInf)"
| "divide_number NInf (Fin y) = (if 0 \<le> y then NInf else PInf)"
| "divide_number PInf b = NaN"
| "divide_number NInf b = NaN"

fun less_number :: "number \<Rightarrow> number \<Rightarrow> bool" where
  "less_number (Fin x) (Fin y) = (x < y)"
| "less_number NaN b = False"
| "less_number a NaN = False"
| "less_number a NInf = False"
| "less_number PInf b = False"
| "less_number NInf b = True"
| "less_number a PInf = True"

definition less_eq_number :: "number \<Rightarrow> number \<Rightarrow> bool" where
  "less_eq_number a b = (a < b \<or> (a = b \<and> a \<noteq> NaN))"

instance ..

end

instantiation number :: inverse
begin

definition inverse_number :: "number \<Rightarrow> number" where
  "inverse_number a = divide (Fin 1) a"

instance ..

end

text \<open>\<^verbatim>\<open>a !== b\<close> on numbers: \<^verbatim>\<open>NaN\<close> differs from everything, itself included.\<close>

definition strict_neq :: "number \<Rightarrow> number \<Rightarrow> bool" where
  "strict_neq a b = (a = NaN \<or> b = NaN \<or> a \<noteq> b)"

text \<open>\<^verbatim>\<open>Math.sqrt\<close>, which rounds the exact root.\<close>

fun math_sqrt :: "number \<Rightarrow> number" where
  "math_sqrt (Fin x) = (if x < 0 then NaN else round64 (sqrt x))"
| "math_sqrt PInf = PInf"
| "math_sqrt NInf = NaN"
| "math_sqrt NaN = NaN"

text \<open>
  \<^verbatim>\<open>Math.pow\<close> and the operator \<^verbatim>\<open>**\<close> (Number::exponentiate of the language
  standard), with the zero base read as the positive zero. The language leaves the
  accuracy of a finite power to the engine; it is taken here as the exact power,
  rounded.
\<close>

definition is_integer :: "real \<Rightarrow> bool" where
  "is_integer y = (of_int \<lfloor>y\<rfloor> = y)"

definition fin_pow :: "real \<Rightarrow> real \<Rightarrow> number" where
  "fin_pow x y =
     (if x = 0 then (if 0 < y then Fin 0 else PInf)
      else if 0 < x then round64 (x powr y)
      else if is_integer y
        then round64 (if even \<lfloor>y\<rfloor> then \<bar>x\<bar> powr y else - (\<bar>x\<bar> powr y))
      else NaN)"

fun math_pow :: "number \<Rightarrow> number \<Rightarrow> number" where
  "math_pow b NaN = NaN"
| "math_pow b (Fin y) =
     (if y = 0 then Fin 1
      else case b of
        NaN \<Rightarrow> NaN
      | PInf \<Rightarrow> (if 0 < y then PInf else Fin 0)
      | NInf \<Rightarrow> (if 0 < y then (if is_integer y \<and> odd \<lfloor>y\<rfloor> then NInf else PInf) else Fin 0)
      | Fin x \<Rightarrow> fin_pow x y)"
| "math_pow b PInf =
     (case b of
        NaN \<Rightarrow> NaN
      | PInf \<Rightarrow> PInf
      | NInf \<Rightarrow> PInf
      | Fin x \<Rightarrow> (if 1 < \<bar>x\<bar> then PInf else if \<bar>x\<bar> = 1 then NaN else Fin 0))"
| "math_pow b NInf =
     (case b of
        NaN \<Rightarrow> NaN
      | PInf \<Rightarrow> Fin 0
      | NInf \<Rightarrow> Fin 0
      | Fin x \<Rightarrow> (if 1 < \<bar>x\<bar> then Fin 0 else if \<bar>x\<bar> = 1 then NaN else PInf))"

section \<open>Vectors\<close>

text \<open>
  A vector is the three-element array \<^verbatim>\<open>[x, y, z]\<close> of the source. \<^verbatim>\<open>map\<close> with an
  index and \<^verbatim>\<open>reduce\<close> from \<^verbatim>\<open>0\<close> are written out for the three elements.
\<close>

type_synonym vec = "number \<times> number \<times> number"

fun add :: "vec \<Rightarrow> vec \<Rightarrow> vec" where
  "add (a1, a2, a3) (b1, b2, b3) = (a1 + b1, a2 + b2, a3 + b3)"

fun sub :: "vec \<Rightarrow> vec \<Rightarrow> vec" where
  "sub (a1, a2, a3) (b1, b2, b3) = (a1 - b1, a2 - b2, a3 - b3)"

fun scale :: "number \<Rightarrow> vec \<Rightarrow> vec" where
  "scale s (a1, a2, a3) = (a1 * s, a2 * s, a3 * s)"

fun sum_vec :: "vec \<Rightarrow> number" where
  "sum_vec (a1, a2, a3) = ((Fin 0 + a1) + a2) + a3"

fun dot :: "vec \<Rightarrow> vec \<Rightarrow> number" where
  "dot (a1, a2, a3) (b1, b2, b3) = sum_vec (a1 * b1, a2 * b2, a3 * b3)"

definition len :: "vec \<Rightarrow> number" where
  "len V = math_sqrt (dot V V)"

section \<open>The scene\<close>

record sphere =
  center :: vec
  radius :: number
  color :: vec
  specular :: number
  reflective :: number

datatype light =
  Ambient number
| Point number vec
| Directional number vec

record scene =
  lights :: "light list"
  spheres :: "sphere list"

definition backgroundColor :: vec where
  "backgroundColor = (Fin 0, Fin 0, Fin 0)"

section \<open>Intersection\<close>

definition intersectRaySphere :: "vec \<Rightarrow> vec \<Rightarrow> sphere \<Rightarrow> number \<times> number" where
  "intersectRaySphere O' D sph =
     (let OC = sub O' (center sph);
          k1 = dot D D;
          k2 = Fin 2 * dot OC D;
          k3 = dot OC OC - math_pow (radius sph) (Fin 2);
          discriminant = math_pow k2 (Fin 2) - Fin 4 * k1 * k3
      in if discriminant < Fin 0 then (PInf, PInf)
         else let discriminant' = math_sqrt discriminant;
                  denominator = Fin 2 * k1
              in ((- k2 + discriminant') / denominator,
                  (- k2 - discriminant') / denominator))"

text \<open>
  One turn of the loop of \<^verbatim>\<open>closestIntersection\<close> over \<^verbatim>\<open>scene.spheres\<close>; the state
  of the loop is the pair \<^verbatim>\<open>closestSphere\<close>, \<^verbatim>\<open>closestT\<close>, and the two tests run one
  after the other.
\<close>

fun closestStep ::
  "vec \<Rightarrow> vec \<Rightarrow> number \<Rightarrow> number \<Rightarrow> sphere option \<times> number \<Rightarrow> sphere
   \<Rightarrow> sphere option \<times> number" where
  "closestStep O' D tMin tMax (closestSphere, closestT) sph =
     (let (t1, t2) = intersectRaySphere O' D sph;
          (closestSphere1, closestT1) =
            (if t1 > tMin \<and> t1 < tMax \<and> t1 < closestT
             then (Some sph, t1) else (closestSphere, closestT))
      in if t2 > tMin \<and> t2 < tMax \<and> t2 < closestT1
         then (Some sph, t2) else (closestSphere1, closestT1))"

fun closestLoop ::
  "vec \<Rightarrow> vec \<Rightarrow> number \<Rightarrow> number \<Rightarrow> sphere option \<times> number \<Rightarrow> sphere list
   \<Rightarrow> sphere option \<times> number" where
  "closestLoop O' D tMin tMax st [] = st"
| "closestLoop O' D tMin tMax st (sph # rest) =
     closestLoop O' D tMin tMax (closestStep O' D tMin tMax st sph) rest"

definition closestIntersection ::
  "scene \<Rightarrow> vec \<Rightarrow> vec \<Rightarrow> number \<Rightarrow> number \<Rightarrow> sphere option \<times> number" where
  "closestIntersection sc O' D tMin tMax =
     closestLoop O' D tMin tMax (None, PInf) (spheres sc)"

section \<open>Lighting\<close>

definition reflectRay :: "vec \<Rightarrow> vec \<Rightarrow> vec" where
  "reflectRay R N = sub (scale (Fin 2 * dot N R) N) R"

text \<open>
  One turn of the loop of \<^verbatim>\<open>computeLighting\<close> over \<^verbatim>\<open>scene.lights\<close>: from the
  intensity \<^verbatim>\<open>i\<close> accumulated so far to the one after this light. A light whose type is
  neither \<^verbatim>\<open>'ambient'\<close> nor \<^verbatim>\<open>'point'\<close> is read as a directional one, as the source's
  \<^verbatim>\<open>else\<close> does; \<^verbatim>\<open>continue\<close> leaves \<^verbatim>\<open>i\<close> as it is.
\<close>

fun lightStep :: "scene \<Rightarrow> vec \<Rightarrow> vec \<Rightarrow> vec \<Rightarrow> number \<Rightarrow> number \<Rightarrow> light \<Rightarrow> number" where
  "lightStep sc P N V s i (Ambient intensity) = i + intensity"
| "lightStep sc P N V s i light =
     (let (intensity, L, tMax) =
            (case light of
               Point intensity position \<Rightarrow> (intensity, sub position P, Fin 1)
             | Directional intensity direction \<Rightarrow> (intensity, direction, PInf));
          (sphere, t) = closestIntersection sc P L (round64 0.001) tMax
      in if sphere \<noteq> None then i
         else
           let nDotL = dot N L;
               i1 = (if nDotL > Fin 0
                     then i + intensity * nDotL / (len N * len L) else i)
           in if strict_neq s (Fin (- 1))
              then let R = reflectRay L N;
                       rDotV = dot R V
                   in if rDotV > Fin 0
                      then i1 + intensity * math_pow (rDotV / (len R * len V)) s
                      else i1
              else i1)"

fun lightingLoop :: "scene \<Rightarrow> vec \<Rightarrow> vec \<Rightarrow> vec \<Rightarrow> number \<Rightarrow> number \<Rightarrow> light list \<Rightarrow> number" where
  "lightingLoop sc P N V s i [] = i"
| "lightingLoop sc P N V s i (light # rest) =
     lightingLoop sc P N V s (lightStep sc P N V s i light) rest"

definition computeLighting :: "scene \<Rightarrow> vec \<Rightarrow> vec \<Rightarrow> vec \<Rightarrow> number \<Rightarrow> number" where
  "computeLighting sc P N V s = lightingLoop sc P N V s (Fin 0) (lights sc)"

section \<open>The tracer\<close>

text \<open>
  \<^verbatim>\<open>traceRay\<close> calls itself, and nothing in its text bounds the calls when \<^verbatim>\<open>depth\<close> is
  not a finite number. The first argument of the model is the number of nested
  activations allowed: each activation uses one, and \<open>None\<close> says that the allowance
  was used up before a colour came back. The scene, a global of the source, is a
  parameter.
\<close>

fun traceRay ::
  "nat \<Rightarrow> scene \<Rightarrow> vec \<Rightarrow> vec \<Rightarrow> number \<Rightarrow> number \<Rightarrow> number \<Rightarrow> vec option" where
  "traceRay 0 sc O' D tMin tMax depth = None"
| "traceRay (Suc fuel) sc O' D tMin tMax depth =
     (case closestIntersection sc O' D tMin tMax of
        (None, t) \<Rightarrow> Some backgroundColor
      | (Some sph, t) \<Rightarrow>
          (let P = add O' (scale t D);
               N = sub P (center sph);
               N' = scale (Fin 1 / len N) N;
               V = scale (Fin (- 1)) D;
               localColor = scale (computeLighting sc P N' V (specular sph)) (color sph);
               r = reflective sph
           in if depth \<le> Fin 0 \<or> r \<le> Fin 0 then Some localColor
              else
                let R = reflectRay V N'
                in case traceRay fuel sc P R (round64 0.001) PInf (depth - Fin 1) of
                     None \<Rightarrow> None
                   | Some reflectedColor \<Rightarrow>
                       Some (add (scale (Fin 1 - r) localColor) (scale r reflectedColor))))"

text \<open>The default of the parameter \<^verbatim>\<open>depth\<close>.\<close>

definition defaultDepth :: number where
  "defaultDepth = Fin 3"

section \<open>Inputs of the scenarios\<close>

text \<open>
  The scene of the end-to-end scenarios: one red sphere on the axis of sight, lit by one
  ambient light, and the ray sent along that axis from the origin.
\<close>

definition scenarioSphere :: sphere where
  "scenarioSphere = \<lparr>center = (Fin 0, Fin 0, Fin 5), radius = Fin 1,
     color = (Fin 255, Fin 0, Fin 0), specular = Fin (- 1), reflective = Fin 0\<rparr>"

definition scenarioScene :: scene where
  "scenarioScene = \<lparr>lights = [Ambient (Fin 1)], spheres = [scenarioSphere]\<rparr>"

definition scenarioOrigin :: vec where
  "scenarioOrigin = (Fin 0, Fin 0, Fin 0)"

definition scenarioDir :: vec where
  "scenarioDir = (Fin 0, Fin 0, Fin 1)"

text \<open>The same sphere as a perfect mirror, for the rays that are reflected.\<close>

definition mirrorSphere :: sphere where
  "mirrorSphere = scenarioSphere\<lparr>reflective := Fin 1\<rparr>"

definition mirrorScene :: scene where
  "mirrorScene = \<lparr>lights = [Ambient (Fin 1)], spheres = [mirrorSphere]\<rparr>"

text \<open>
  A half-reflective unit sphere around the origin and no light: a ray that starts on
  its inside and runs through the centre is sent back and forth between two opposite
  points of it.
\<close>

definition boxSphere :: sphere where
  "boxSphere = \<lparr>center = (Fin 0, Fin 0, Fin 0), radius = Fin 1,
     color = (Fin 255, Fin 255, Fin 255), specular = Fin (- 1), reflective = Fin (1 / 2)\<rparr>"

definition boxScene :: scene where
  "boxScene = \<lparr>lights = [], spheres = [boxSphere]\<rparr>"

text \<open>
  The sphere of the scenario between the origin and a point light behind it, and in
  the way of a directional light along the axis.
\<close>

definition shadowScene :: scene where
  "shadowScene = \<lparr>lights = [Point (Fin 1) (Fin 0, Fin 0, Fin 8),
                              Directional (Fin 1) (Fin 0, Fin 0, Fin 1)],
                    spheres = [scenarioSphere]\<rparr>"

text \<open>The mirror under an ambient light of intensity \<^verbatim>\<open>Infinity\<close>.\<close>

definition glareScene :: scene where
  "glareScene = \<lparr>lights = [Ambient PInf], spheres = [mirrorSphere]\<rparr>"

section \<open>Finite numbers\<close>

text \<open>
  The vectors, colours and coefficients that the data model of the program speaks of
  have finite components: \<^verbatim>\<open>Number.isFinite\<close> holds of each.
\<close>

fun isFinite :: "number \<Rightarrow> bool" where
  "isFinite (Fin x) = True"
| "isFinite PInf = False"
| "isFinite NInf = False"
| "isFinite NaN = False"

fun finite_vec :: "vec \<Rightarrow> bool" where
  "finite_vec (a1, a2, a3) = (isFinite a1 \<and> isFinite a2 \<and> isFinite a3)"

text \<open>
  A finite value that the program can hold is a double: rounding leaves it as it is.
\<close>

fun machine :: "number \<Rightarrow> bool" where
  "machine (Fin x) = (round64 x = Fin x)"
| "machine PInf = True"
| "machine NInf = True"
| "machine NaN = True"

fun machine_vec :: "vec \<Rightarrow> bool" where
  "machine_vec (a1, a2, a3) = (machine a1 \<and> machine a2 \<and> machine a3)"

section \<open>Rounding\<close>

lemma rhe_int [simp]: "round_half_even (of_int n) = n"
  by (simp add: round_half_even_def)

lemma rhe_le: "m \<le> of_int M \<Longrightarrow> round_half_even m \<le> M"
proof -
  assume h: "m \<le> of_int M"
  have f: "\<lfloor>m\<rfloor> \<le> M" using h by (simp add: floor_le_iff)
  show ?thesis
  proof (cases "\<lfloor>m\<rfloor> = M")
    case True
    then have "m - of_int \<lfloor>m\<rfloor> \<le> 0" using h by simp
    then show ?thesis using True by (simp add: round_half_even_def Let_def)
  next
    case False
    then have "\<lfloor>m\<rfloor> + 1 \<le> M" using f by simp
    then show ?thesis using f by (simp add: round_half_even_def Let_def)
  qed
qed

lemma rhe_ge: "of_int M \<le> m \<Longrightarrow> M \<le> round_half_even m"
proof -
  assume "of_int M \<le> m"
  then have "M \<le> \<lfloor>m\<rfloor>" by (simp add: le_floor_iff)
  then show ?thesis by (simp add: round_half_even_def Let_def)
qed

lemma rhe_neg: "round_half_even (- m) = - round_half_even m"
proof (cases "m = of_int \<lfloor>m\<rfloor>")
  case True
  have "round_half_even (- of_int \<lfloor>m\<rfloor>) = - round_half_even (of_int \<lfloor>m\<rfloor>)"
    using rhe_int[of "- \<lfloor>m\<rfloor>"] by simp
  then show ?thesis using True by simp
next
  case False
  have fr: "0 < m - of_int \<lfloor>m\<rfloor>" "m - of_int \<lfloor>m\<rfloor> < 1"
    using False by linarith+
  have fl: "\<lfloor>- m\<rfloor> = - \<lfloor>m\<rfloor> - 1"
    by (rule floor_unique) (use fr in simp_all)
  show ?thesis
    unfolding round_half_even_def Let_def fl using fr by auto
qed

lemma ulp_pos: "0 < ulp x"
  by (simp add: ulp_def)

lemma binade_lower: "- 1022 \<le> binade x"
  by (simp add: binade_def)

lemma binade_upper:
  assumes "x \<noteq> 0"
  shows "\<bar>x\<bar> < 2 powr of_int (binade x + 1)"
proof -
  have pos: "0 < \<bar>x\<bar>" using assms by simp
  have "\<bar>x\<bar> < 2 powr (of_int \<lfloor>log 2 \<bar>x\<bar>\<rfloor> + 1)"
    using floor_log_eq_powr_iff[OF pos, of 2 "\<lfloor>log 2 \<bar>x\<bar>\<rfloor>"] by simp
  also have "\<dots> \<le> 2 powr of_int (binade x + 1)"
    by (simp add: binade_def)
  finally show ?thesis .
qed

lemma binade_le:
  assumes "x \<noteq> 0" and "\<bar>x\<bar> < 2 powr of_int (K + 1)" and "- 1022 \<le> K"
  shows "binade x \<le> K"
proof -
  have pos: "0 < \<bar>x\<bar>" using assms(1) by simp
  have "2 powr of_int \<lfloor>log 2 \<bar>x\<bar>\<rfloor> \<le> \<bar>x\<bar>"
    using floor_log_eq_powr_iff[OF pos, of 2 "\<lfloor>log 2 \<bar>x\<bar>\<rfloor>"] by simp
  then have "2 powr of_int \<lfloor>log 2 \<bar>x\<bar>\<rfloor> < (2::real) powr of_int (K + 1)"
    using assms(2) by linarith
  then have "\<lfloor>log 2 \<bar>x\<bar>\<rfloor> < K + 1"
    by simp
  then show ?thesis
    using assms(3) by (simp add: binade_def)
qed

lemma binade_ge:
  assumes "x \<noteq> 0" and "2 powr of_int K \<le> \<bar>x\<bar>"
  shows "K \<le> binade x"
proof -
  have pos: "0 < \<bar>x\<bar>" using assms(1) by simp
  have "\<bar>x\<bar> < 2 powr (of_int \<lfloor>log 2 \<bar>x\<bar>\<rfloor> + 1)"
    using floor_log_eq_powr_iff[OF pos, of 2 "\<lfloor>log 2 \<bar>x\<bar>\<rfloor>"] by simp
  then have "2 powr of_int K < (2::real) powr (of_int \<lfloor>log 2 \<bar>x\<bar>\<rfloor> + 1)"
    using assms(2) by linarith
  then have "of_int K < of_int \<lfloor>log 2 \<bar>x\<bar>\<rfloor> + (1::real)"
    by simp
  then have "K \<le> \<lfloor>log 2 \<bar>x\<bar>\<rfloor>"
    by linarith
  then show ?thesis
    by (simp add: binade_def)
qed

lemma round64_grid:
  assumes "x / ulp x = of_int m" and "\<bar>x\<bar> < 2 ^ 1024"
  shows "round64 x = Fin x"
proof -
  have "round_half_even (x / ulp x) = m"
    using assms(1) by simp
  moreover have "x / ulp x * ulp x = x"
    using ulp_pos[of x] by simp
  ultimately have "of_int (round_half_even (x / ulp x)) * ulp x = x"
    using assms(1) by simp
  then show ?thesis
    using assms(2) by (simp add: round64_def Let_def)
qed

lemma round64_zero [simp]: "round64 0 = Fin 0"
  by (rule round64_grid[of 0 0]) simp_all

lemma round64_fix:
  assumes x: "x = of_int n * 2 powr of_int k"
    and n: "\<bar>n\<bar> < 2 ^ 53" and k: "- 1074 \<le> k" and b: "\<bar>x\<bar> < 2 ^ 1024"
  shows "round64 x = Fin x"
proof (cases "n = 0")
  case True
  then show ?thesis using x by simp
next
  case False
  have x0: "x \<noteq> 0"
    using False x by simp
  have "\<bar>x\<bar> = of_int \<bar>n\<bar> * 2 powr of_int k"
    by (simp add: x abs_mult)
  also have "\<dots> < 2 ^ 53 * 2 powr of_int k"
  proof -
    have "(of_int \<bar>n\<bar> :: real) < of_int (2 ^ 53)"
      using n by (simp only: of_int_less_iff)
    then show ?thesis by simp
  qed
  also have "\<dots> = 2 powr of_int ((52 + k) + 1)"
  proof -
    have "(2::real) powr of_int ((52 + k) + 1) = 2 powr (53 + of_int k)"
      by (simp add: add.commute)
    also have "\<dots> = 2 powr 53 * 2 powr of_int k"
      by (rule powr_add)
    finally show ?thesis
      by simp
  qed
  finally have lt: "\<bar>x\<bar> < 2 powr of_int ((52 + k) + 1)" .
  have "- 1022 \<le> 52 + k"
    using k by linarith
  with x0 lt have bl: "binade x \<le> 52 + k"
    by (rule binade_le)
  define j where "j = nat (52 + k - binade x)"
  have j: "int j = 52 + k - binade x"
    using bl by (simp add: j_def)
  have e: "of_int k = of_int (binade x - 52) + real j"
    using j by linarith
  have "(2::real) powr of_int k = 2 powr of_int (binade x - 52) * 2 powr real j"
    unfolding e by (rule powr_add)
  also have "(2::real) powr real j = 2 ^ j"
    by (simp add: powr_realpow)
  finally have p: "2 powr of_int k = ulp x * 2 ^ j"
    by (simp only: ulp_def)
  define u where "u = ulp x"
  have u: "0 < u"
    by (simp add: u_def ulp_pos)
  have "x = of_int n * (u * 2 ^ j)"
    using x p by (simp only: u_def)
  then have "x / u = of_int (n * 2 ^ j)"
    using u by simp
  then have "x / ulp x = of_int (n * 2 ^ j)"
    by (simp only: u_def)
  then show ?thesis
    using b by (rule round64_grid)
qed

lemma round64_fix_le:
  assumes x: "x = of_int n * 2 powr of_int k"
    and n: "\<bar>n\<bar> \<le> 2 ^ 53" and k: "- 1074 \<le> k" and b: "\<bar>x\<bar> < 2 ^ 1024"
  shows "round64 x = Fin x"
proof (cases "\<bar>n\<bar> < 2 ^ 53")
  case True
  from x True k b show ?thesis by (rule round64_fix)
next
  case False
  then have "\<bar>n\<bar> = 2 ^ 53" using n by linarith
  then have "n = 9007199254740992 \<or> n = - 9007199254740992"
    by (simp add: abs_if split: if_splits)
  then have n2: "n = 2 * (n div 2)" "\<bar>n div 2\<bar> < 2 ^ 53"
    by auto
  have "(2::real) powr of_int (k + 1) = 2 powr of_int k * 2 powr 1"
    by (simp add: powr_add)
  then have p: "(2::real) powr of_int (k + 1) = 2 * 2 powr of_int k"
    by simp
  have "of_int n = 2 * (of_int (n div 2) :: real)"
    using n2(1) by (metis of_int_mult of_int_numeral)
  then have "x = of_int (n div 2) * 2 powr of_int (k + 1)"
    unfolding p x by simp
  moreover have "- 1074 \<le> k + 1" using k by simp
  ultimately show ?thesis
    using n2(2) b round64_fix[of x "n div 2" "k + 1"] by blast
qed

lemma round64_int:
  assumes "\<bar>n\<bar> \<le> 2 ^ 53"
  shows "round64 (of_int n) = Fin (of_int n)"
proof (rule round64_fix_le[of _ n 0])
  show "\<bar>n\<bar> \<le> 2 ^ 53" by (rule assms)
  have "\<bar>of_int n :: real\<bar> \<le> of_int (2 ^ 53)"
    using assms by (simp only: of_int_abs[symmetric] of_int_le_iff)
  then show "\<bar>of_int n :: real\<bar> < 2 ^ 1024"
    by simp
qed simp_all

lemma round64_ratio_bound:
  assumes "x \<noteq> 0"
  shows "\<bar>x / ulp x\<bar> < 2 ^ 53"
proof -
  define e where "e = binade x"
  have "\<bar>x\<bar> < 2 powr of_int (e + 1)"
    unfolding e_def using assms by (rule binade_upper)
  moreover have "(2::real) powr of_int (e + 1) = 2 powr 53 * 2 powr of_int (e - 52)"
  proof -
    have "(of_int (e + 1) :: real) = 53 + of_int (e - 52)"
      by simp
    then show ?thesis
      by (simp only: powr_add)
  qed
  ultimately have "\<bar>x\<bar> < 2 ^ 53 * ulp x"
    by (simp add: ulp_def e_def)
  then show ?thesis
    using ulp_pos[of x] by (simp add: abs_divide pos_divide_less_eq)
qed

lemma rhe_bound:
  assumes "\<bar>m\<bar> \<le> of_int M"
  shows "\<bar>round_half_even m\<bar> \<le> M"
proof -
  have "m \<le> of_int M" "of_int (- M) \<le> m"
    using assms by simp_all
  then have "round_half_even m \<le> M" "- M \<le> round_half_even m"
    using rhe_le rhe_ge by blast+
  then show ?thesis by simp
qed

lemma round64_machine:
  assumes "round64 x = Fin y"
  shows "round64 y = Fin y"
proof (cases "x = 0")
  case True
  then show ?thesis using assms by simp
next
  case False
  define n where "n = round_half_even (x / ulp x)"
  have y: "y = of_int n * ulp x" and b: "\<bar>y\<bar> < 2 ^ 1024"
    using assms by (auto simp: round64_def Let_def n_def split: if_splits)
  have "\<bar>x / ulp x\<bar> \<le> of_int (2 ^ 53)"
    using round64_ratio_bound[OF False] by simp
  then have n: "\<bar>n\<bar> \<le> 2 ^ 53"
    unfolding n_def by (rule rhe_bound)
  have k: "- 1074 \<le> binade x - 52"
    using binade_lower[of x] by simp
  have "y = of_int n * 2 powr of_int (binade x - 52)"
    using y by (simp only: ulp_def)
  from this n k b show ?thesis
    by (rule round64_fix_le)
qed

lemma rhe_zero [simp]: "round_half_even 0 = 0"
  using rhe_int[of 0] by simp

lemma binade_neg: "binade (- x) = binade x"
  by (simp add: binade_def)

lemma ulp_neg: "ulp (- x) = ulp x"
  by (simp add: ulp_def binade_neg)

lemma round64_neg: "round64 (- x) = - round64 x"
proof -
  define n where "n = round_half_even (x / ulp x)"
  have "round_half_even (- x / ulp (- x)) = - n"
    using rhe_neg[of "x / ulp x"] by (simp add: ulp_neg n_def)
  then show ?thesis
    by (auto simp: round64_def Let_def ulp_neg n_def[symmetric])
qed

lemma binade_eq:
  assumes "2 powr of_int K \<le> \<bar>x\<bar>" and "\<bar>x\<bar> < 2 powr of_int (K + 1)" and "- 1022 \<le> K"
  shows "binade x = K"
proof -
  have "0 < (2::real) powr of_int K" by simp
  then have x0: "x \<noteq> 0" using assms(1) by auto
  have "binade x \<le> K" using x0 assms(2,3) by (rule binade_le)
  moreover have "K \<le> binade x" using x0 assms(1) by (rule binade_ge)
  ultimately show ?thesis by simp
qed

lemma round64_le_int:
  assumes "x \<le> of_int N" and "0 \<le> N" and "N \<le> 2 ^ 53"
  shows "round64 x = NInf \<or> (\<exists>y. round64 x = Fin y \<and> y \<le> of_int N)"
proof -
  define u where "u = ulp x"
  define n where "n = round_half_even (x / u)"
  have u: "0 < u" by (simp add: u_def ulp_pos)
  have r: "round64 x =
             (if 2 ^ 1024 \<le> \<bar>of_int n * u\<bar> then (if 0 < x then PInf else NInf)
              else Fin (of_int n * u))"
    by (simp add: round64_def Let_def n_def u_def)
  show ?thesis
  proof (cases "x \<le> 0")
    case True
    then have "x / u \<le> of_int 0"
      using u by (simp add: divide_le_0_iff)
    then have "n \<le> 0"
      unfolding n_def by (rule rhe_le)
    then have "of_int n * u \<le> 0"
      using u by (simp add: mult_le_0_iff)
    moreover have "(0::real) \<le> of_int N"
      using assms(2) by simp
    ultimately have "of_int n * u \<le> of_int N"
      by linarith
    then show ?thesis
      using r True by auto
  next
    case False
    then have pos: "0 < x" by simp
    show ?thesis
    proof (cases "x < 2 ^ 53")
      case True
      have "(2::real) powr of_int (52 + 1) = 2 ^ 53"
        by simp
      then have lt: "\<bar>x\<bar> < 2 powr of_int (52 + 1)"
        using True pos by (simp only: abs_of_pos)
      have x0: "x \<noteq> 0"
        using pos by simp
      have "- 1022 \<le> (52::int)"
        by simp
      with x0 lt have bl: "binade x \<le> 52"
        by (rule binade_le)
      define j where "j = nat (52 - binade x)"
      have j: "int j = 52 - binade x"
        using bl by (simp add: j_def)
      have "(of_int (binade x - 52) :: real) = - real j"
        using j by linarith
      then have "u = 2 powr (- real j)"
        by (simp only: u_def ulp_def)
      then have uj: "u * 2 ^ j = 1"
        by (simp add: powr_minus powr_realpow)
      have "x / u = x * (u * 2 ^ j) / u"
        by (simp only: uj mult_1_right)
      also have "\<dots> = x * 2 ^ j"
        using u by simp
      also have "\<dots> \<le> of_int N * 2 ^ j"
        using assms(1) by simp
      also have "\<dots> = of_int (N * 2 ^ j)"
        by simp
      finally have "n \<le> N * 2 ^ j"
        unfolding n_def by (rule rhe_le)
      then have "(of_int n :: real) \<le> of_int (N * 2 ^ j)"
        by (simp only: of_int_le_iff)
      then have "of_int n * u \<le> of_int (N * 2 ^ j) * u"
        using u by simp
      also have "\<dots> = of_int N * (u * 2 ^ j)"
        by simp
      finally have le: "of_int n * u \<le> of_int N"
        by (simp only: uj mult_1_right)
      have "of_int 0 \<le> x / u"
        using pos u by simp
      then have "0 \<le> n"
        unfolding n_def by (rule rhe_ge)
      then have ge: "0 \<le> of_int n * u"
        using u by simp
      have "(of_int N :: real) \<le> of_int (2 ^ 53)"
        using assms(3) by (simp only: of_int_le_iff)
      then have "\<bar>of_int n * u\<bar> < 2 ^ 1024"
        using le ge by simp
      then show ?thesis
        using r le by auto
    next
      case False
      have "(of_int N :: real) \<le> of_int (2 ^ 53)"
        using assms(3) by (simp only: of_int_le_iff)
      then have "x = of_int (2 ^ 53)" "of_int N = x"
        using False assms(1) by simp_all
      then show ?thesis
        using round64_int[of "2 ^ 53"] by auto
    qed
  qed
qed

lemma round64_numeral [simp]:
  "numeral k \<le> (9007199254740992::int) \<Longrightarrow> round64 (numeral k) = Fin (numeral k)"
  using round64_int[of "numeral k"] by simp

lemma round64_neg_numeral [simp]:
  "numeral k \<le> (9007199254740992::int) \<Longrightarrow> round64 (- numeral k) = Fin (- numeral k)"
  using round64_int[of "- numeral k"] by simp

lemma round64_one [simp]: "round64 1 = Fin 1"
  using round64_int[of 1] by simp

lemma round64_minus_one [simp]: "round64 (- 1) = Fin (- 1)"
  using round64_int[of "- 1"] by simp

lemma round64_dyadic:
  assumes "\<bar>n\<bar> < 2 ^ 53" and "j \<le> 1074"
  shows "round64 (of_int n / 2 ^ j) = Fin (of_int n / 2 ^ j)"
proof (rule round64_fix[of _ n "- int j"])
  have p: "(2::real) powr of_int (- int j) = 1 / 2 ^ j"
    by (simp add: powr_minus powr_realpow divide_simps)
  show "real_of_int n / 2 ^ j = of_int n * 2 powr of_int (- int j)"
    unfolding p by simp
  show "\<bar>n\<bar> < 2 ^ 53" by (rule assms)
  show "- 1074 \<le> - int j" using assms(2) by simp
  have "\<bar>real_of_int n\<bar> < of_int (2 ^ 53)"
    using assms(1) by (simp only: of_int_abs[symmetric] of_int_less_iff)
  then have "\<bar>real_of_int n\<bar> < 2 ^ 1024" by simp
  moreover have "\<bar>real_of_int n / 2 ^ j\<bar> \<le> \<bar>real_of_int n\<bar>"
    by (simp add: divide_simps mult_le_cancel_left1)
  ultimately show "\<bar>real_of_int n / 2 ^ j\<bar> < 2 ^ 1024" by linarith
qed

lemma rhe_down: "of_int n \<le> m \<Longrightarrow> m - of_int n < 1 / 2 \<Longrightarrow> round_half_even m = n"
proof -
  assume a: "of_int n \<le> m" "m - of_int n < 1 / 2"
  have "\<lfloor>m\<rfloor> = n" using a by (intro floor_unique) auto
  then show ?thesis using a by (simp add: round_half_even_def)
qed

lemma rhe_up: "1 / 2 < m - of_int n \<Longrightarrow> m < of_int n + 1 \<Longrightarrow> round_half_even m = n + 1"
proof -
  assume a: "1 / 2 < m - of_int n" "m < of_int n + 1"
  have "\<lfloor>m\<rfloor> = n" using a by (intro floor_unique) auto
  then show ?thesis using a by (simp add: round_half_even_def)
qed

lemma rhe_tie: "m = of_int n + 1 / 2 \<Longrightarrow> round_half_even m = (if even n then n else n + 1)"
proof -
  assume a: "m = of_int n + 1 / 2"
  have "\<lfloor>m\<rfloor> = n" using a by (intro floor_unique) auto
  then show ?thesis using a by (simp add: round_half_even_def)
qed

lemma round64_eval:
  assumes "2 powr of_int K \<le> \<bar>x\<bar>" and "\<bar>x\<bar> < 2 powr of_int (K + 1)" and "- 1022 \<le> K"
    and "u = 2 powr of_int (K - 52)"
    and "round_half_even (x / u) = m"
    and "\<bar>real_of_int m * u\<bar> < 2 ^ 1024"
  shows "round64 x = Fin (real_of_int m * u)"
proof -
  have b: "binade x = K" using assms(1-3) by (rule binade_eq)
  have u: "ulp x = u" unfolding ulp_def b assms(4) ..
  show ?thesis
    unfolding round64_def u assms(5) Let_def using assms(6) by simp
qed

lemma round64_cases: "(\<exists>y. round64 x = Fin y) \<or> round64 x = PInf \<or> round64 x = NInf"
  by (simp add: round64_def Let_def)

lemma lit_value [simp]: "round64 (1 / 1000) = Fin (1152921504606847 / 1152921504606846976)"
proof -
  have r: "round_half_even ((1 / 1000) / (1 / 2 ^ 62)) = 4611686018427387 + 1"
    by (rule rhe_up) simp_all
  have "round64 (1 / 1000) = Fin (real_of_int (4611686018427387 + 1) * (1 / 2 ^ 62))"
  proof (rule round64_eval[where K = "- 10"])
    show "2 powr real_of_int (- 10) \<le> \<bar>1 / 1000 :: real\<bar>"
      by (simp add: powr_minus powr_realpow divide_simps)
    show "\<bar>1 / 1000 :: real\<bar> < 2 powr real_of_int (- 10 + 1)"
      by (simp add: powr_minus powr_realpow divide_simps)
    show "(1 / 2 ^ 62 :: real) = 2 powr real_of_int (- 10 - 52)"
      by (simp add: powr_minus powr_realpow divide_simps)
    show "round_half_even ((1 / 1000) / (1 / 2 ^ 62)) = 4611686018427387 + 1"
      by (rule r)
  qed simp_all
  then show ?thesis by simp
qed

lemma big_value: "round64 (10000000000000000 - 1) = Fin 10000000000000000"
proof -
  have r: "round_half_even ((10000000000000000 - 1) / 2)
             = (if even (4999999999999999::int) then 4999999999999999 else 4999999999999999 + 1)"
    by (rule rhe_tie) simp
  have e: "\<not> even (4999999999999999::int)" by simp
  have "round64 (10000000000000000 - 1) = Fin (real_of_int (4999999999999999 + 1) * 2)"
  proof (rule round64_eval[where K = 53])
    show "2 powr real_of_int 53 \<le> \<bar>10000000000000000 - 1 :: real\<bar>"
      by (simp add: powr_realpow[symmetric])
    show "\<bar>10000000000000000 - 1 :: real\<bar> < 2 powr real_of_int (53 + 1)"
      by (simp add: powr_realpow[symmetric])
    show "(2 :: real) = 2 powr real_of_int (53 - 52)"
      by simp
    show "round_half_even ((10000000000000000 - 1) / 2) = 4999999999999999 + 1"
      using r e by simp
  qed simp_all
  then show ?thesis by simp
qed


section \<open>Facts about numbers\<close>

lemma number_less_trans: "(a::number) < b \<Longrightarrow> b < c \<Longrightarrow> a < c"
  by (cases a; cases b; cases c) auto

lemma number_less_irrefl: "\<not> (a::number) < a"
  by (cases a) auto

lemma number_between_fin: "(a::number) < t \<Longrightarrow> t < b \<Longrightarrow> \<exists>x. t = Fin x"
  by (cases a; cases t; cases b) auto

lemma fin_minus [simp]: "Fin x - Fin y = round64 (x - y)"
  by (simp add: minus_number_def)

lemma fin_pow_two [simp]: "fin_pow x 2 = round64 (x * x)"
proof -
  have "\<lfloor>2::real\<rfloor> = 2" by simp
  then have i: "is_integer 2" "even \<lfloor>2::real\<rfloor>" by (simp_all add: is_integer_def)
  have "0 < x \<Longrightarrow> x powr 2 = x * x" by (simp add: power2_eq_square)
  moreover have "x < 0 \<Longrightarrow> \<bar>x\<bar> powr 2 = x * x" by (simp add: power2_eq_square)
  ultimately show ?thesis using i by (auto simp: fin_pow_def)
qed

lemma math_pow_two: "math_pow a (Fin 2) = a * a"
  by (cases a) (simp_all add: is_integer_def)

lemma machine_round64 [simp]: "machine (round64 x)"
  using round64_cases[of x] round64_machine[of x] by auto

lemma machine_plus [simp]: "machine (a + b)"
  by (cases a; cases b) simp_all

lemma machine_times [simp]: "machine (a * b)"
  by (cases a; cases b) simp_all

lemma machine_uminus: "machine a \<Longrightarrow> machine (- a)"
  using round64_neg by (cases a) simp_all

lemma machine_minus [simp]: "machine (a - b)"
  by (simp add: minus_number_def)

section \<open>The nearest hit\<close>

lemma closestStep_cases:
  assumes "closestStep O' D tMin tMax (cs, ct) x = (cs', ct')"
  shows "(cs' = cs \<and> ct' = ct) \<or>
         (cs' = Some x \<and> tMin < ct' \<and> ct' < tMax \<and> ct' < ct \<and>
           (ct' = fst (intersectRaySphere O' D x) \<or> ct' = snd (intersectRaySphere O' D x)))"
proof -
  obtain t1 t2 where r: "intersectRaySphere O' D x = (t1, t2)"
    by (cases "intersectRaySphere O' D x")
  show ?thesis
    using assms r by (auto split: if_splits intro: number_less_trans)
qed

lemma closestStep_least:
  assumes "closestStep O' D tMin tMax (cs, ct) x = (cs', ct')"
    and "t = fst (intersectRaySphere O' D x) \<or> t = snd (intersectRaySphere O' D x)"
    and "tMin < t" "t < tMax"
  shows "\<not> t < ct'"
proof -
  obtain t1 t2 where r: "intersectRaySphere O' D x = (t1, t2)"
    by (cases "intersectRaySphere O' D x")
  show ?thesis
    using assms r by (auto split: if_splits dest: number_less_trans simp: number_less_irrefl)
qed

text \<open>
  The invariant of the loop: either nothing was selected and the distance is still
  \<^verbatim>\<open>Infinity\<close>, or the selected sphere was met on the way and the distance is one of its
  two roots, strictly inside the interval.
\<close>

lemma closestLoop_hit:
  assumes "closestLoop O' D tMin tMax (cs, ct) xs = (cs', ct')"
    and "(cs = None \<and> ct = PInf) \<or>
         (\<exists>s. cs = Some s \<and> s \<in> A \<and> tMin < ct \<and> ct < tMax \<and>
              (ct = fst (intersectRaySphere O' D s) \<or> ct = snd (intersectRaySphere O' D s)))"
  shows "(cs' = None \<and> ct' = PInf) \<or>
         (\<exists>s. cs' = Some s \<and> s \<in> A \<union> set xs \<and> tMin < ct' \<and> ct' < tMax \<and>
              (ct' = fst (intersectRaySphere O' D s) \<or> ct' = snd (intersectRaySphere O' D s)))"
  using assms
proof (induction xs arbitrary: cs ct A)
  case Nil
  then show ?case by simp
next
  case (Cons x xs)
  obtain cs1 ct1 where st: "closestStep O' D tMin tMax (cs, ct) x = (cs1, ct1)"
    by (cases "closestStep O' D tMin tMax (cs, ct) x")
  have run: "closestLoop O' D tMin tMax (cs1, ct1) xs = (cs', ct')"
    using Cons.prems(1) st by simp
  have "(cs1 = None \<and> ct1 = PInf) \<or>
        (\<exists>s. cs1 = Some s \<and> s \<in> insert x A \<and> tMin < ct1 \<and> ct1 < tMax \<and>
             (ct1 = fst (intersectRaySphere O' D s) \<or> ct1 = snd (intersectRaySphere O' D s)))"
    using closestStep_cases[OF st] Cons.prems(2) by auto
  from Cons.IH[OF run this] show ?case by auto
qed

lemma closestLoop_mono:
  assumes "closestLoop O' D tMin tMax (cs, ct) xs = (cs', ct')"
  shows "ct' = ct \<or> ct' < ct"
  using assms
proof (induction xs arbitrary: cs ct)
  case Nil
  then show ?case by simp
next
  case (Cons x xs)
  obtain cs1 ct1 where st: "closestStep O' D tMin tMax (cs, ct) x = (cs1, ct1)"
    by (cases "closestStep O' D tMin tMax (cs, ct) x")
  have run: "closestLoop O' D tMin tMax (cs1, ct1) xs = (cs', ct')"
    using Cons.prems st by simp
  have a: "ct1 = ct \<or> ct1 < ct"
    using closestStep_cases[OF st] by auto
  have b: "ct' = ct1 \<or> ct' < ct1"
    by (rule Cons.IH[OF run])
  from a b show ?case
    by (auto intro: number_less_trans)
qed

lemma closestLoop_least:
  assumes "closestLoop O' D tMin tMax (cs, ct) xs = (cs', ct')"
    and "x \<in> set xs"
    and "t = fst (intersectRaySphere O' D x) \<or> t = snd (intersectRaySphere O' D x)"
    and "tMin < t" "t < tMax"
  shows "\<not> t < ct'"
  using assms(1,2)
proof (induction xs arbitrary: cs ct)
  case Nil
  then show ?case by simp
next
  case (Cons y ys)
  obtain cs1 ct1 where st: "closestStep O' D tMin tMax (cs, ct) y = (cs1, ct1)"
    by (cases "closestStep O' D tMin tMax (cs, ct) y")
  have run: "closestLoop O' D tMin tMax (cs1, ct1) ys = (cs', ct')"
    using Cons.prems(1) st by simp
  show ?case
  proof (cases "x = y")
    case True
    have "\<not> t < ct1"
      using closestStep_least[OF st _ assms(4,5)] assms(3) True by simp
    moreover have "ct' = ct1 \<or> ct' < ct1"
      by (rule closestLoop_mono[OF run])
    ultimately show ?thesis
      by (auto dest: number_less_trans)
  next
    case False
    then have "x \<in> set ys" using Cons.prems(2) by simp
    from Cons.IH[OF run this] show ?thesis .
  qed
qed

lemma closestIntersection_inv:
  assumes "closestIntersection sc O' D tMin tMax = (cs, ct)"
  shows "(cs = None \<and> ct = PInf) \<or>
         (\<exists>s. cs = Some s \<and> s \<in> set (spheres sc) \<and> tMin < ct \<and> ct < tMax \<and>
              (ct = fst (intersectRaySphere O' D s) \<or> ct = snd (intersectRaySphere O' D s)))"
proof -
  have run: "closestLoop O' D tMin tMax (None, PInf) (spheres sc) = (cs, ct)"
    using assms by (simp add: closestIntersection_def)
  have "(cs = None \<and> ct = PInf) \<or>
         (\<exists>s. cs = Some s \<and> s \<in> {} \<union> set (spheres sc) \<and> tMin < ct \<and> ct < tMax \<and>
              (ct = fst (intersectRaySphere O' D s) \<or> ct = snd (intersectRaySphere O' D s)))"
    by (rule closestLoop_hit[OF run]) simp
  then show ?thesis by simp
qed

lemma closestIntersection_least:
  assumes "closestIntersection sc O' D tMin tMax = (cs, ct)"
    and "x \<in> set (spheres sc)"
    and "t = fst (intersectRaySphere O' D x) \<or> t = snd (intersectRaySphere O' D x)"
    and "tMin < t" "t < tMax"
  shows "\<not> t < ct"
proof -
  have run: "closestLoop O' D tMin tMax (None, PInf) (spheres sc) = (cs, ct)"
    using assms(1) by (simp add: closestIntersection_def)
  show ?thesis
    by (rule closestLoop_least[OF run assms(2-5)])
qed

lemma closestIntersection_none_iff:
  assumes "closestIntersection sc O' D tMin tMax = (cs, ct)"
  shows "cs = None \<longleftrightarrow>
           (\<forall>s \<in> set (spheres sc).
              \<not> (tMin < fst (intersectRaySphere O' D s) \<and> fst (intersectRaySphere O' D s) < tMax) \<and>
              \<not> (tMin < snd (intersectRaySphere O' D s) \<and> snd (intersectRaySphere O' D s) < tMax))"
proof
  assume "cs = None"
  then have p: "ct = PInf" using closestIntersection_inv[OF assms] by auto
  have no: "\<not> (tMin < t \<and> t < tMax)"
    if "s \<in> set (spheres sc)"
      "t = fst (intersectRaySphere O' D s) \<or> t = snd (intersectRaySphere O' D s)" for s t
  proof
    assume h: "tMin < t \<and> t < tMax"
    then obtain a where "t = Fin a"
      using number_between_fin by blast
    then show False
      using closestIntersection_least[OF assms that] h p by simp
  qed
  show "\<forall>s \<in> set (spheres sc).
          \<not> (tMin < fst (intersectRaySphere O' D s) \<and> fst (intersectRaySphere O' D s) < tMax) \<and>
          \<not> (tMin < snd (intersectRaySphere O' D s) \<and> snd (intersectRaySphere O' D s) < tMax)"
    using no by blast
next
  assume "\<forall>s \<in> set (spheres sc).
            \<not> (tMin < fst (intersectRaySphere O' D s) \<and> fst (intersectRaySphere O' D s) < tMax) \<and>
            \<not> (tMin < snd (intersectRaySphere O' D s) \<and> snd (intersectRaySphere O' D s) < tMax)"
  then show "cs = None"
    using closestIntersection_inv[OF assms] by auto
qed

lemma traceRay_miss:
  "fst (closestIntersection sc O' D tMin tMax) = None \<Longrightarrow>
   traceRay (Suc fuel) sc O' D tMin tMax depth = Some backgroundColor"
  by (cases "closestIntersection sc O' D tMin tMax") simp

section \<open>The scenarios, computed\<close>

lemma scenario_roots:
  "intersectRaySphere scenarioOrigin scenarioDir scenarioSphere = (Fin 6, Fin 4)"
  by (simp add: intersectRaySphere_def scenarioSphere_def scenarioOrigin_def scenarioDir_def
      Let_def)

lemma scenario_hit:
  "closestIntersection scenarioScene scenarioOrigin scenarioDir (Fin 1) PInf
     = (Some scenarioSphere, Fin 4)"
  by (simp add: closestIntersection_def scenarioScene_def scenario_roots)

lemma scenario_miss:
  "closestIntersection scenarioScene scenarioOrigin scenarioDir (Fin 1) (Fin 3) = (None, PInf)"
  by (simp add: closestIntersection_def scenarioScene_def scenario_roots)

lemma scenario_spheres: "spheres scenarioScene = [scenarioSphere]"
  by (simp add: scenarioScene_def)

section \<open>The tracer on a hit\<close>

lemma isFinite_iff: "isFinite a \<longleftrightarrow> (\<exists>x. a = Fin x)"
  by (cases a) auto

lemma finite_vec_iff: "finite_vec v \<longleftrightarrow> (\<exists>x y z. v = (Fin x, Fin y, Fin z))"
  by (cases v) (auto simp: isFinite_iff)

lemma number_zero_add: "machine a \<Longrightarrow> Fin 0 + a = a"
  by (cases a) simp_all

lemma number_add_zero: "machine a \<Longrightarrow> a + Fin 0 = a"
  by (cases a) simp_all

lemma number_mult_one: "machine a \<Longrightarrow> a * Fin 1 = a"
  by (cases a) simp_all

lemma number_one_mult: "machine a \<Longrightarrow> Fin 1 * a = a"
  by (cases a) simp_all

lemma machine_vec_add [simp]: "machine_vec (add u v)"
  by (cases u; cases v) simp

lemma machine_vec_scale [simp]: "machine_vec (scale s v)"
  by (cases v) simp

lemma traceRay_hit:
  assumes "closestIntersection sc O' D tMin tMax = (Some sph, t)"
    and "P = add O' (scale t D)"
    and "N = scale (Fin 1 / len (sub P (center sph))) (sub P (center sph))"
    and "V = scale (Fin (- 1)) D"
    and "localColor = scale (computeLighting sc P N V (specular sph)) (color sph)"
  shows "traceRay (Suc fuel) sc O' D tMin tMax depth =
           (if depth \<le> Fin 0 \<or> reflective sph \<le> Fin 0 then Some localColor
            else case traceRay fuel sc P (reflectRay V N) (round64 0.001) PInf (depth - Fin 1) of
                   None \<Rightarrow> None
                 | Some reflectedColor \<Rightarrow>
                     Some (add (scale (Fin 1 - reflective sph) localColor)
                               (scale (reflective sph) reflectedColor)))"
  unfolding assms(5) assms(4) assms(3) assms(2) using assms(1) by (simp add: Let_def)

lemma blend_one:
  "finite_vec c \<Longrightarrow> machine_vec c' \<Longrightarrow> add (scale (Fin 0) c) (scale (Fin 1) c') = c'"
  by (cases c; cases c')
    (auto simp: isFinite_iff number_mult_one number_zero_add)

lemma blend_zero:
  "finite_vec c' \<Longrightarrow> machine_vec c \<Longrightarrow> add (scale (Fin 1) c) (scale (Fin 0) c') = c"
  by (cases c; cases c')
    (auto simp: isFinite_iff number_mult_one number_add_zero)

lemma blend_component:
  "machine c \<Longrightarrow> l * Fin 0 + c * Fin 1 = (if isFinite l then c else NaN)"
  by (cases l; cases c) simp_all

lemma traceRay_machine:
  assumes "traceRay fuel sc O' D tMin tMax depth = Some c"
  shows "machine_vec c"
proof (cases fuel)
  case 0
  then show ?thesis using assms by simp
next
  case (Suc k)
  obtain cs ct where r: "closestIntersection sc O' D tMin tMax = (cs, ct)"
    by (cases "closestIntersection sc O' D tMin tMax")
  show ?thesis
  proof (cases cs)
    case None
    then show ?thesis
      using assms r Suc by (auto simp: backgroundColor_def)
  next
    case (Some sph)
    have "traceRay (Suc k) sc O' D tMin tMax depth = Some c"
      using assms Suc by simp
    then show ?thesis
      using traceRay_hit[OF r[unfolded Some] refl refl refl refl, of k depth]
      by (auto simp del: traceRay.simps split: if_splits option.splits)
  qed
qed

lemma mirror_spheres: "spheres mirrorScene = [mirrorSphere]"
  by (simp add: mirrorScene_def)

lemma mirror_roots:
  "intersectRaySphere scenarioOrigin scenarioDir mirrorSphere = (Fin 6, Fin 4)"
  by (simp add: intersectRaySphere_def mirrorSphere_def scenarioSphere_def scenarioOrigin_def
      scenarioDir_def Let_def)

lemma mirror_hit:
  "closestIntersection mirrorScene scenarioOrigin scenarioDir (Fin 1) PInf
     = (Some mirrorSphere, Fin 4)"
  by (simp add: closestIntersection_def mirrorScene_def mirror_roots)

lemma mirror_point: "add scenarioOrigin (scale (Fin 4) scenarioDir) = (Fin 0, Fin 0, Fin 4)"
  by (simp add: scenarioOrigin_def scenarioDir_def)

lemma mirror_normal:
  "scale (Fin 1 / len (sub (Fin 0, Fin 0, Fin 4) (center mirrorSphere)))
         (sub (Fin 0, Fin 0, Fin 4) (center mirrorSphere)) = (Fin 0, Fin 0, Fin (- 1))"
  by (simp add: mirrorSphere_def scenarioSphere_def len_def)

lemma mirror_view: "scale (Fin (- 1)) scenarioDir = (Fin 0, Fin 0, Fin (- 1))"
  by (simp add: scenarioDir_def)

lemma mirror_reflect:
  "reflectRay (Fin 0, Fin 0, Fin (- 1)) (Fin 0, Fin 0, Fin (- 1)) = (Fin 0, Fin 0, Fin (- 1))"
  by (simp add: reflectRay_def)

lemma mirror_local:
  "scale (computeLighting mirrorScene P N V (specular mirrorSphere)) (color mirrorSphere)
     = (Fin 255, Fin 0, Fin 0)"
  by (simp add: computeLighting_def mirrorScene_def mirrorSphere_def scenarioSphere_def)

lemma scenario_local:
  "scale (computeLighting scenarioScene P N V (specular scenarioSphere)) (color scenarioSphere)
     = (Fin 255, Fin 0, Fin 0)"
  by (simp add: computeLighting_def scenarioScene_def scenarioSphere_def)

lemma mirror_bounce_roots:
  "intersectRaySphere (Fin 0, Fin 0, Fin 4) (Fin 0, Fin 0, Fin (- 1)) mirrorSphere
     = (Fin 0, Fin (- 2))"
  by (simp add: intersectRaySphere_def mirrorSphere_def scenarioSphere_def Let_def)

lemma mirror_bounce:
  "traceRay (Suc fuel) mirrorScene (Fin 0, Fin 0, Fin 4) (Fin 0, Fin 0, Fin (- 1))
     (round64 0.001) PInf depth = Some backgroundColor"
  by (rule traceRay_miss) (simp add: closestIntersection_def mirror_spheres mirror_bounce_roots)

lemma scenario_normal:
  "scale (Fin 1 / len (sub (Fin 0, Fin 0, Fin 4) (center scenarioSphere)))
         (sub (Fin 0, Fin 0, Fin 4) (center scenarioSphere)) = (Fin 0, Fin 0, Fin (- 1))"
  by (simp add: scenarioSphere_def len_def)

lemma scenario_bounce_roots:
  "intersectRaySphere (Fin 0, Fin 0, Fin 4) (Fin 0, Fin 0, Fin (- 1)) scenarioSphere
     = (Fin 0, Fin (- 2))"
  by (simp add: intersectRaySphere_def scenarioSphere_def Let_def)

lemma scenario_bounce:
  "traceRay (Suc fuel) scenarioScene (Fin 0, Fin 0, Fin 4) (Fin 0, Fin 0, Fin (- 1))
     (round64 0.001) PInf depth = Some backgroundColor"
  by (rule traceRay_miss) (simp add: closestIntersection_def scenario_spheres scenario_bounce_roots)

section \<open>The depth of the recursion\<close>

lemma fuel_from:
  assumes "\<And>k. n \<le> k \<Longrightarrow> f (Suc k) = Some c"
  shows "\<exists>c. \<forall>fuel::nat. n < fuel \<longrightarrow> f fuel = Some (c::vec)"
proof (intro exI[of _ c] allI impI)
  fix fuel :: nat
  assume "n < fuel"
  then obtain k where "fuel = Suc k" "n \<le> k"
    by (cases fuel) auto
  then show "f fuel = Some c"
    using assms by simp
qed

lemma depth_step:
  assumes "depth = NInf \<or> (\<exists>d. depth = Fin d \<and> d \<le> real (Suc n))"
    and "\<not> depth \<le> Fin 0"
    and "real (Suc n) \<le> 2 ^ 53"
  shows "depth - Fin 1 = NInf \<or> (\<exists>d. depth - Fin 1 = Fin d \<and> d \<le> real n)"
proof -
  have "depth \<noteq> NInf"
    using assms(2) by (auto simp: less_eq_number_def)
  then obtain d where d: "depth = Fin d" "d \<le> real (Suc n)"
    using assms(1) by blast
  have "d - 1 \<le> real_of_int (int n)"
    using d(2) by simp
  moreover have "0 \<le> int n"
    by simp
  moreover have "int n \<le> 2 ^ 53"
  proof -
    have "real_of_int (int n) \<le> real_of_int (2 ^ 53)"
      using assms(3) by simp
    then show ?thesis
      by (simp only: of_int_le_iff)
  qed
  ultimately have "round64 (d - 1) = NInf \<or> (\<exists>y. round64 (d - 1) = Fin y \<and> y \<le> real_of_int (int n))"
    by (rule round64_le_int)
  then show ?thesis
    unfolding d(1) by simp
qed

lemma traceRay_enough:
  "depth = NInf \<or> (\<exists>d. depth = Fin d \<and> d \<le> real n) \<Longrightarrow> real n \<le> 2 ^ 53 \<Longrightarrow>
   \<exists>c. \<forall>fuel. n < fuel \<longrightarrow> traceRay fuel sc O' D tMin tMax depth = Some c"
proof (induction n arbitrary: depth O' D tMin tMax)
  case 0
  obtain cs ct where r: "closestIntersection sc O' D tMin tMax = (cs, ct)"
    by (cases "closestIntersection sc O' D tMin tMax")
  have le: "depth \<le> Fin 0"
    using 0(1) by (auto simp: less_eq_number_def)
  show ?case
  proof (cases cs)
    case None
    then have "traceRay (Suc k) sc O' D tMin tMax depth = Some backgroundColor" for k
      using r by (simp add: traceRay_miss)
    then show ?thesis
      by (intro fuel_from[where f = "\<lambda>fuel. traceRay fuel sc O' D tMin tMax depth"])
  next
    case (Some sph)
    define P where "P = add O' (scale ct D)"
    define N where "N = scale (Fin 1 / len (sub P (center sph))) (sub P (center sph))"
    define V where "V = scale (Fin (- 1)) D"
    define localColor where
      "localColor = scale (computeLighting sc P N V (specular sph)) (color sph)"
    have "traceRay (Suc k) sc O' D tMin tMax depth = Some localColor" for k
      using traceRay_hit[OF r[unfolded Some] P_def N_def V_def localColor_def, of k depth] le
      by (simp del: traceRay.simps)
    then show ?thesis
      by (intro fuel_from[where f = "\<lambda>fuel. traceRay fuel sc O' D tMin tMax depth"])
  qed
next
  case (Suc n)
  obtain cs ct where r: "closestIntersection sc O' D tMin tMax = (cs, ct)"
    by (cases "closestIntersection sc O' D tMin tMax")
  show ?case
  proof (cases cs)
    case None
    then have "traceRay (Suc k) sc O' D tMin tMax depth = Some backgroundColor" for k
      using r by (simp add: traceRay_miss)
    then show ?thesis
      by (intro fuel_from[where f = "\<lambda>fuel. traceRay fuel sc O' D tMin tMax depth"])
  next
    case (Some sph)
    define P where "P = add O' (scale ct D)"
    define N where "N = scale (Fin 1 / len (sub P (center sph))) (sub P (center sph))"
    define V where "V = scale (Fin (- 1)) D"
    define localColor where
      "localColor = scale (computeLighting sc P N V (specular sph)) (color sph)"
    note unfold = traceRay_hit[OF r[unfolded Some] P_def N_def V_def localColor_def, of _ depth]
    show ?thesis
    proof (cases "depth \<le> Fin 0 \<or> reflective sph \<le> Fin 0")
      case True
      have "traceRay (Suc k) sc O' D tMin tMax depth = Some localColor" for k
        using unfold[of k] True by (simp del: traceRay.simps)
      then show ?thesis
        by (intro fuel_from[where f = "\<lambda>fuel. traceRay fuel sc O' D tMin tMax depth"])
    next
      case False
      then have pos: "\<not> depth \<le> Fin 0"
        by simp
      have less: "depth - Fin 1 = NInf \<or> (\<exists>d. depth - Fin 1 = Fin d \<and> d \<le> real n)"
        using Suc.prems(1) pos Suc.prems(2) by (rule depth_step)
      have small: "real n \<le> 2 ^ 53"
        using Suc.prems(2) by simp
      from Suc.IH[OF less small, of P "reflectRay V N" "round64 0.001" PInf] obtain c where
        c: "\<And>fuel. n < fuel \<Longrightarrow>
              traceRay fuel sc P (reflectRay V N) (round64 0.001) PInf (depth - Fin 1) = Some c"
        by blast
      have "traceRay (Suc k) sc O' D tMin tMax depth =
              Some (add (scale (Fin 1 - reflective sph) localColor) (scale (reflective sph) c))"
        if "Suc n \<le> k" for k
      proof -
        have "n < k" using that by simp
        from c[OF this] show ?thesis
          using unfold[of k] False by (simp del: traceRay.simps)
      qed
      then show ?thesis
        by (intro fuel_from[where f = "\<lambda>fuel. traceRay fuel sc O' D tMin tMax depth"])
    qed
  qed
qed

lemma scenario_color:
  "traceRay (Suc fuel) scenarioScene scenarioOrigin scenarioDir (Fin 1) PInf depth
     = Some (Fin 255, Fin 0, Fin 0)"
proof -
  have "reflective scenarioSphere \<le> Fin 0"
    by (simp add: scenarioSphere_def less_eq_number_def)
  then show ?thesis
    using traceRay_hit[OF scenario_hit refl refl refl refl, of fuel depth]
    by (simp add: scenario_local del: traceRay.simps)
qed

lemma box_spheres: "spheres boxScene = [boxSphere]"
  by (simp add: boxScene_def)

lemma box_roots_down:
  "intersectRaySphere (Fin 0, Fin 0, Fin 1) (Fin 0, Fin 0, Fin (- 1)) boxSphere = (Fin 2, Fin 0)"
  by (simp add: intersectRaySphere_def boxSphere_def Let_def)

lemma box_roots_up:
  "intersectRaySphere (Fin 0, Fin 0, Fin (- 1)) (Fin 0, Fin 0, Fin 1) boxSphere = (Fin 2, Fin 0)"
  by (simp add: intersectRaySphere_def boxSphere_def Let_def)

lemma box_hit_down:
  "closestIntersection boxScene (Fin 0, Fin 0, Fin 1) (Fin 0, Fin 0, Fin (- 1)) (round64 0.001) PInf
     = (Some boxSphere, Fin 2)"
  by (simp add: closestIntersection_def box_spheres box_roots_down)

lemma box_hit_up:
  "closestIntersection boxScene (Fin 0, Fin 0, Fin (- 1)) (Fin 0, Fin 0, Fin 1) (round64 0.001) PInf
     = (Some boxSphere, Fin 2)"
  by (simp add: closestIntersection_def box_spheres box_roots_up)

lemma box_point_down:
  "(Fin 0, Fin 0, Fin (- 1)) = add (Fin 0, Fin 0, Fin 1) (scale (Fin 2) (Fin 0, Fin 0, Fin (- 1)))"
  by simp

lemma box_point_up:
  "(Fin 0, Fin 0, Fin 1) = add (Fin 0, Fin 0, Fin (- 1)) (scale (Fin 2) (Fin 0, Fin 0, Fin 1))"
  by simp

lemma box_normal_down:
  "(Fin 0, Fin 0, Fin (- 1)) =
     scale (Fin 1 / len (sub (Fin 0, Fin 0, Fin (- 1)) (center boxSphere)))
           (sub (Fin 0, Fin 0, Fin (- 1)) (center boxSphere))"
  by (simp add: boxSphere_def len_def)

lemma box_normal_up:
  "(Fin 0, Fin 0, Fin 1) =
     scale (Fin 1 / len (sub (Fin 0, Fin 0, Fin 1) (center boxSphere)))
           (sub (Fin 0, Fin 0, Fin 1) (center boxSphere))"
  by (simp add: boxSphere_def len_def)

lemma box_view_down: "(Fin 0, Fin 0, Fin 1) = scale (Fin (- 1)) (Fin 0, Fin 0, Fin (- 1))"
  by simp

lemma box_view_up: "(Fin 0, Fin 0, Fin (- 1)) = scale (Fin (- 1)) (Fin 0, Fin 0, Fin 1)"
  by simp

lemma box_reflect_down:
  "reflectRay (Fin 0, Fin 0, Fin 1) (Fin 0, Fin 0, Fin (- 1)) = (Fin 0, Fin 0, Fin 1)"
  by (simp add: reflectRay_def)

lemma box_reflect_up:
  "reflectRay (Fin 0, Fin 0, Fin (- 1)) (Fin 0, Fin 0, Fin 1) = (Fin 0, Fin 0, Fin (- 1))"
  by (simp add: reflectRay_def)

lemma box_reflective: "\<not> reflective boxSphere \<le> Fin 0"
  by (simp add: less_eq_number_def boxSphere_def)

lemma box_step_down:
  assumes "depth - Fin 1 = depth" and "\<not> depth \<le> Fin 0"
    and "traceRay fuel boxScene (Fin 0, Fin 0, Fin (- 1)) (Fin 0, Fin 0, Fin 1)
             (round64 0.001) PInf depth = None"
  shows "traceRay (Suc fuel) boxScene (Fin 0, Fin 0, Fin 1) (Fin 0, Fin 0, Fin (- 1))
             (round64 0.001) PInf depth = None"
  using traceRay_hit[OF box_hit_down box_point_down box_normal_down box_view_down refl,
      of fuel depth] assms
  by (simp add: box_reflect_down box_reflective del: traceRay.simps)

lemma box_step_up:
  assumes "depth - Fin 1 = depth" and "\<not> depth \<le> Fin 0"
    and "traceRay fuel boxScene (Fin 0, Fin 0, Fin 1) (Fin 0, Fin 0, Fin (- 1))
             (round64 0.001) PInf depth = None"
  shows "traceRay (Suc fuel) boxScene (Fin 0, Fin 0, Fin (- 1)) (Fin 0, Fin 0, Fin 1)
             (round64 0.001) PInf depth = None"
  using traceRay_hit[OF box_hit_up box_point_up box_normal_up box_view_up refl,
      of fuel depth] assms
  by (simp add: box_reflect_up box_reflective del: traceRay.simps)

lemma box_never:
  assumes "depth - Fin 1 = depth" and "\<not> depth \<le> Fin 0"
  shows "traceRay fuel boxScene (Fin 0, Fin 0, Fin 1) (Fin 0, Fin 0, Fin (- 1))
           (round64 0.001) PInf depth = None \<and>
         traceRay fuel boxScene (Fin 0, Fin 0, Fin (- 1)) (Fin 0, Fin 0, Fin 1)
           (round64 0.001) PInf depth = None"
proof (induction fuel)
  case 0
  show ?case by simp
next
  case (Suc fuel)
  then show ?case
    using box_step_down[OF assms] box_step_up[OF assms] by blast
qed

lemma depth_infinite: "PInf - Fin 1 = PInf" "\<not> PInf \<le> Fin 0"
  by (simp_all add: minus_number_def less_eq_number_def)

lemma depth_nan: "NaN - Fin 1 = NaN" "\<not> NaN \<le> Fin 0"
  by (simp_all add: minus_number_def less_eq_number_def)

lemma depth_large:
  "Fin 10000000000000000 - Fin 1 = Fin 10000000000000000" "\<not> Fin 10000000000000000 \<le> Fin 0"
  using big_value by (simp_all add: less_eq_number_def)

section \<open>Shadows\<close>

lemma closestIntersection_lights:
  "closestIntersection (sc\<lparr>lights := ls\<rparr>) O' D tMin tMax = closestIntersection sc O' D tMin tMax"
  by (simp add: closestIntersection_def)

lemma lightStep_lights:
  "lightStep (sc\<lparr>lights := ls\<rparr>) P N V s i l = lightStep sc P N V s i l"
  by (cases l) (simp_all add: closestIntersection_lights)

lemma lightingLoop_lights:
  "lightingLoop (sc\<lparr>lights := ls\<rparr>) P N V s i xs = lightingLoop sc P N V s i xs"
  by (induction xs arbitrary: i) (simp_all add: lightStep_lights)

lemma lightStep_point_shadow:
  "fst (closestIntersection sc P (sub position P) (round64 0.001) (Fin 1)) \<noteq> None \<Longrightarrow>
   lightStep sc P N V s i (Point intensity position) = i"
  by (cases "closestIntersection sc P (sub position P) (round64 0.001) (Fin 1)") simp

lemma lightStep_directional_shadow:
  "fst (closestIntersection sc P direction (round64 0.001) PInf) \<noteq> None \<Longrightarrow>
   lightStep sc P N V s i (Directional intensity direction) = i"
  by (cases "closestIntersection sc P direction (round64 0.001) PInf") simp

lemma lightingLoop_filter:
  assumes "\<And>l i. l \<in> set xs \<Longrightarrow> \<not> keep l \<Longrightarrow> lightStep sc P N V s i l = i"
  shows "lightingLoop sc P N V s i (filter keep xs) = lightingLoop sc P N V s i xs"
  using assms
proof (induction xs arbitrary: i)
  case Nil
  show ?case by simp
next
  case (Cons l xs)
  have rest: "lightingLoop sc P N V s j (filter keep xs) = lightingLoop sc P N V s j xs" for j
    using Cons.IH Cons.prems by simp
  show ?case
  proof (cases "keep l")
    case True
    then show ?thesis using rest by (simp del: lightStep.simps)
  next
    case False
    then have "lightStep sc P N V s i l = i"
      using Cons.prems by simp
    then show ?thesis using False rest by (simp del: lightStep.simps)
  qed
qed

lemma lightingLoop_lit:
  "lightingLoop sc P N V s i
     (filter (\<lambda>l. case l of
                Ambient a \<Rightarrow> True
              | Point a position \<Rightarrow>
                  fst (closestIntersection sc P (sub position P) (round64 0.001) (Fin 1)) = None
              | Directional a direction \<Rightarrow>
                  fst (closestIntersection sc P direction (round64 0.001) PInf) = None) xs)
   = lightingLoop sc P N V s i xs"
proof (rule lightingLoop_filter)
  fix l j
  assume "\<not> (case l of
                Ambient a \<Rightarrow> True
              | Point a position \<Rightarrow>
                  fst (closestIntersection sc P (sub position P) (round64 0.001) (Fin 1)) = None
              | Directional a direction \<Rightarrow>
                  fst (closestIntersection sc P direction (round64 0.001) PInf) = None)"
  then show "lightStep sc P N V s j l = j"
    using lightStep_point_shadow[of sc P _ N V s j] lightStep_directional_shadow[of sc P _ N V s j]
    by (cases l) (simp_all del: lightStep.simps)
qed

lemma lightStep_lit:
  assumes "fst (closestIntersection sc P L (round64 0.001) tMax) = None"
    and "light = Point intensity position \<and> L = sub position P \<and> tMax = Fin 1 \<or>
         light = Directional intensity L \<and> tMax = PInf"
  shows "lightStep sc P N V s i light =
           (let i1 = (if dot N L > Fin 0
                      then i + intensity * dot N L / (len N * len L) else i)
            in if strict_neq s (Fin (- 1)) \<and> dot (reflectRay L N) V > Fin 0
               then i1 + intensity * math_pow (dot (reflectRay L N) V / (len (reflectRay L N) * len V)) s
               else i1)"
  using assms by (cases "closestIntersection sc P L (round64 0.001) tMax") (auto simp: Let_def)

lemma sqrt_256: "sqrt 256 = 16"
  by (rule real_sqrt_unique) simp_all

lemma round64_quarters: "round64 (3 / 4) = Fin (3 / 4)" "round64 (1 / 2) = Fin (1 / 2)"
  using round64_dyadic[of 3 2] round64_dyadic[of 1 1] by simp_all

lemma shadow_spheres: "spheres shadowScene = [scenarioSphere]"
  by (simp add: shadowScene_def)

lemma shadow_point_roots:
  "intersectRaySphere scenarioOrigin (sub (Fin 0, Fin 0, Fin 8) scenarioOrigin) scenarioSphere
     = (Fin (3 / 4), Fin (1 / 2))"
  by (simp add: intersectRaySphere_def scenarioSphere_def scenarioOrigin_def Let_def sqrt_256
      round64_quarters)

lemma shadow_point_hit:
  "closestIntersection shadowScene scenarioOrigin (sub (Fin 0, Fin 0, Fin 8) scenarioOrigin)
     (round64 0.001) (Fin 1) = (Some scenarioSphere, Fin (1 / 2))"
  by (simp add: closestIntersection_def shadow_spheres shadow_point_roots)

lemma shadow_directional_hit:
  "closestIntersection shadowScene scenarioOrigin scenarioDir (round64 0.001) PInf
     = (Some scenarioSphere, Fin 4)"
  by (simp add: closestIntersection_def shadow_spheres scenario_roots)

lemma shadow_near_miss:
  "closestIntersection shadowScene scenarioOrigin (sub (Fin 0, Fin 0, Fin 1) scenarioOrigin)
     (round64 0.001) (Fin 1) = (None, PInf)"
proof -
  have "sub (Fin 0, Fin 0, Fin 1) scenarioOrigin = scenarioDir"
    by (simp add: scenarioOrigin_def scenarioDir_def)
  then show ?thesis
    by (simp add: closestIntersection_def shadow_spheres scenario_roots)
qed

lemma shadow_side_roots:
  "intersectRaySphere scenarioOrigin (Fin 0, Fin 1, Fin 0) scenarioSphere = (PInf, PInf)"
  by (simp add: intersectRaySphere_def scenarioSphere_def scenarioOrigin_def Let_def)

lemma shadow_side_miss:
  "closestIntersection shadowScene scenarioOrigin (Fin 0, Fin 1, Fin 0) (round64 0.001) PInf
     = (None, PInf)"
  by (simp add: closestIntersection_def shadow_spheres shadow_side_roots)

section \<open>The two roots\<close>





























section \<open>An infinite light\<close>

lemma glare_spheres: "spheres glareScene = [mirrorSphere]"
  by (simp add: glareScene_def)

lemma glare_hit:
  "closestIntersection glareScene scenarioOrigin scenarioDir (Fin 1) PInf
     = (Some mirrorSphere, Fin 4)"
  by (simp add: closestIntersection_def glare_spheres mirror_roots)

lemma glare_local:
  "scale (computeLighting glareScene P N V (specular mirrorSphere)) (color mirrorSphere)
     = (PInf, NaN, NaN)"
  by (simp add: computeLighting_def glareScene_def mirrorSphere_def scenarioSphere_def)

lemma glare_bounce:
  "traceRay (Suc fuel) glareScene (Fin 0, Fin 0, Fin 4) (Fin 0, Fin 0, Fin (- 1))
     (round64 0.001) PInf depth = Some backgroundColor"
  by (rule traceRay_miss) (simp add: closestIntersection_def glare_spheres mirror_bounce_roots)

section \<open>Reflection\<close>

lemma round64_double:
  assumes "round64 y = Fin y" and "\<bar>y\<bar> < 2 ^ 1023"
  shows "round64 (2 * y) = Fin (2 * y)"
proof (cases "y = 0")
  case True
  then show ?thesis by simp
next
  case False
  define n where "n = round_half_even (y / ulp y)"
  have y: "y = of_int n * ulp y"
    using assms(1) by (auto simp: round64_def Let_def n_def split: if_splits)
  have "\<bar>y / ulp y\<bar> \<le> of_int (2 ^ 53)"
    using round64_ratio_bound[OF False] by simp
  then have n: "\<bar>n\<bar> \<le> 2 ^ 53"
    unfolding n_def by (rule rhe_bound)
  have k: "- 1074 \<le> binade y - 52 + 1"
    using binade_lower[of y] by simp
  have "(2::real) powr of_int (binade y - 52 + 1) = 2 powr of_int (binade y - 52) * 2 powr 1"
    by (simp only: of_int_add of_int_1 powr_add)
  then have p: "(2::real) powr of_int (binade y - 52 + 1) = 2 * ulp y"
    by (simp add: ulp_def)
  define u where "u = ulp y"
  have "2 * y = of_int n * (2 * u)"
    using y unfolding u_def by simp
  then have e: "2 * y = of_int n * 2 powr of_int (binade y - 52 + 1)"
    unfolding p u_def .
  have b: "\<bar>2 * y\<bar> < 2 ^ 1024"
    using assms(2) by simp
  from e n k b show ?thesis
    by (rule round64_fix_le)
qed

lemma machine_neg: "round64 y = Fin y \<Longrightarrow> round64 (- y) = Fin (- y)"
  by (simp add: round64_neg)

lemma reflect_axis_x:
  assumes "s = 1 \<or> s = - 1"
    and "round64 r1 = Fin r1" "round64 r2 = Fin r2" "round64 r3 = Fin r3"
    and "\<bar>r1\<bar> < 2 ^ 1023"
  shows "reflectRay (Fin r1, Fin r2, Fin r3) (Fin s, Fin 0, Fin 0) = (Fin r1, Fin (- r2), Fin (- r3))"
proof -
  note d = round64_double[OF assms(2,5)] machine_neg[OF assms(2)] machine_neg[OF assms(3)]
    machine_neg[OF assms(4)]
  have d': "round64 (- (2 * r1)) = Fin (- (2 * r1))"
    using d(1) by (rule machine_neg)
  show ?thesis
    using assms(1) by (auto simp: reflectRay_def assms(2-4) d d')
qed

lemma reflect_axis_y:
  assumes "s = 1 \<or> s = - 1"
    and "round64 r1 = Fin r1" "round64 r2 = Fin r2" "round64 r3 = Fin r3"
    and "\<bar>r2\<bar> < 2 ^ 1023"
  shows "reflectRay (Fin r1, Fin r2, Fin r3) (Fin 0, Fin s, Fin 0) = (Fin (- r1), Fin r2, Fin (- r3))"
proof -
  note d = round64_double[OF assms(3,5)] machine_neg[OF assms(2)] machine_neg[OF assms(3)]
    machine_neg[OF assms(4)]
  have d': "round64 (- (2 * r2)) = Fin (- (2 * r2))"
    using d(1) by (rule machine_neg)
  show ?thesis
    using assms(1) by (auto simp: reflectRay_def assms(2-4) d d')
qed

lemma reflect_axis_z:
  assumes "s = 1 \<or> s = - 1"
    and "round64 r1 = Fin r1" "round64 r2 = Fin r2" "round64 r3 = Fin r3"
    and "\<bar>r3\<bar> < 2 ^ 1023"
  shows "reflectRay (Fin r1, Fin r2, Fin r3) (Fin 0, Fin 0, Fin s) = (Fin (- r1), Fin (- r2), Fin r3)"
proof -
  note d = round64_double[OF assms(4,5)] machine_neg[OF assms(2)] machine_neg[OF assms(3)]
    machine_neg[OF assms(4)]
  have d': "round64 (- (2 * r3)) = Fin (- (2 * r3))"
    using d(1) by (rule machine_neg)
  show ?thesis
    using assms(1) by (auto simp: reflectRay_def assms(2-4) d d')
qed

lemma axis_unit: "s = 1 \<or> s = - 1 \<Longrightarrow>
  dot (Fin s, Fin 0, Fin 0) (Fin s, Fin 0, Fin 0) = Fin 1 \<and>
  dot (Fin 0, Fin s, Fin 0) (Fin 0, Fin s, Fin 0) = Fin 1 \<and>
  dot (Fin 0, Fin 0, Fin s) (Fin 0, Fin 0, Fin s) = Fin 1"
  by auto

lemma round64_top: "round64 (2 ^ 1023) = Fin (2 ^ 1023)"
proof (rule round64_fix[of _ 1 1023])
  show "(2::real) ^ 1023 = real_of_int 1 * 2 powr real_of_int 1023"
    by (simp add: powr_realpow[symmetric])
qed simp_all

lemma round64_overflow: "round64 (2 ^ 1024) = PInf"
proof -
  have b: "binade (2 ^ 1024) = 1024"
  proof (rule binade_eq)
    show "2 powr real_of_int 1024 \<le> \<bar>2 ^ 1024 :: real\<bar>"
      by (simp add: powr_realpow[symmetric])
    show "\<bar>2 ^ 1024 :: real\<bar> < 2 powr real_of_int (1024 + 1)"
      by (simp add: powr_realpow[symmetric])
  qed simp
  have u: "ulp (2 ^ 1024) = 2 ^ 972"
    unfolding ulp_def b by (simp add: powr_realpow[symmetric])
  have "(2 ^ 1024 :: real) / 2 ^ 972 = real_of_int (2 ^ 52)"
    by simp
  then have r: "round_half_even (2 ^ 1024 / 2 ^ 972) = 2 ^ 52"
    by (simp only: rhe_int)
  show ?thesis
    unfolding round64_def u r Let_def by simp
qed

lemma overflow_once:
  "reflectRay (Fin (2 ^ 1023), Fin 0, Fin 0) (Fin 1, Fin 0, Fin 0) = (PInf, NaN, NaN)"
  using round64_top round64_overflow by (simp add: reflectRay_def minus_number_def)

lemma overflow_twice:
  "reflectRay (PInf, NaN, NaN) (Fin 1, Fin 0, Fin 0) = (NaN, NaN, NaN)"
  by (simp add: reflectRay_def minus_number_def)

lemma infinite_once:
  "reflectRay (PInf, Fin 0, Fin 0) (Fin 1, Fin 0, Fin 0) = (NaN, NaN, NaN)"
  by (simp add: reflectRay_def minus_number_def)

lemma infinite_twice:
  "reflectRay (NaN, NaN, NaN) (Fin 1, Fin 0, Fin 0) = (NaN, NaN, NaN)"
  by (simp add: reflectRay_def minus_number_def)

text \<open>
  The normal (0.6, 0.8, 0): the product of the program with itself is 1, and every
  rounding on the way of the vector (0, 1, 0) through two reflections is listed.
\<close>

lemma skew_step_1: "round64 (3 / 5) = Fin (5404319552844595 / 9007199254740992)"
proof -
  have r: "round_half_even ((3 / 5) / (1 / 2 ^ 53)) = 5404319552844595"
    by (rule rhe_down) simp_all
  have "round64 (3 / 5) = Fin (real_of_int 5404319552844595 * (1 / 2 ^ 53))"
  proof (rule round64_eval[where K = "-1"])
    show "2 powr real_of_int (-1) \<le> \<bar>3 / 5 :: real\<bar>"
      by (simp add: powr_minus powr_realpow divide_simps)
    show "\<bar>3 / 5 :: real\<bar> < 2 powr real_of_int (-1 + 1)"
      by (simp add: powr_minus powr_realpow divide_simps)
    show "(1 / 2 ^ 53 :: real) = 2 powr real_of_int (-1 - 52)"
      by (simp add: powr_minus powr_realpow divide_simps)
    show "round_half_even ((3 / 5) / (1 / 2 ^ 53)) = 5404319552844595"
      by (rule r)
  qed simp_all
  then show ?thesis by simp
qed

lemma skew_step_2: "round64 (4 / 5) = Fin (3602879701896397 / 4503599627370496)"
proof -
  have r: "round_half_even ((4 / 5) / (1 / 2 ^ 53)) = 7205759403792793 + 1"
    by (rule rhe_up) simp_all
  have "round64 (4 / 5) = Fin (real_of_int (7205759403792793 + 1) * (1 / 2 ^ 53))"
  proof (rule round64_eval[where K = "-1"])
    show "2 powr real_of_int (-1) \<le> \<bar>4 / 5 :: real\<bar>"
      by (simp add: powr_minus powr_realpow divide_simps)
    show "\<bar>4 / 5 :: real\<bar> < 2 powr real_of_int (-1 + 1)"
      by (simp add: powr_minus powr_realpow divide_simps)
    show "(1 / 2 ^ 53 :: real) = 2 powr real_of_int (-1 - 52)"
      by (simp add: powr_minus powr_realpow divide_simps)
    show "round_half_even ((4 / 5) / (1 / 2 ^ 53)) = (7205759403792793 + 1)"
      by (rule r)
  qed simp_all
  then show ?thesis by simp
qed

lemma skew_step_3: "round64 (5404319552844595 / 9007199254740992) = Fin (5404319552844595 / 9007199254740992)"
proof -
  have r: "round_half_even ((5404319552844595 / 9007199254740992) / (1 / 2 ^ 53)) = 5404319552844595"
    by (rule rhe_down) simp_all
  have "round64 (5404319552844595 / 9007199254740992) = Fin (real_of_int 5404319552844595 * (1 / 2 ^ 53))"
  proof (rule round64_eval[where K = "-1"])
    show "2 powr real_of_int (-1) \<le> \<bar>5404319552844595 / 9007199254740992 :: real\<bar>"
      by (simp add: powr_minus powr_realpow divide_simps)
    show "\<bar>5404319552844595 / 9007199254740992 :: real\<bar> < 2 powr real_of_int (-1 + 1)"
      by (simp add: powr_minus powr_realpow divide_simps)
    show "(1 / 2 ^ 53 :: real) = 2 powr real_of_int (-1 - 52)"
      by (simp add: powr_minus powr_realpow divide_simps)
    show "round_half_even ((5404319552844595 / 9007199254740992) / (1 / 2 ^ 53)) = 5404319552844595"
      by (rule r)
  qed simp_all
  then show ?thesis by simp
qed

lemma skew_step_4: "round64 (3602879701896397 / 4503599627370496) = Fin (3602879701896397 / 4503599627370496)"
proof -
  have r: "round_half_even ((3602879701896397 / 4503599627370496) / (1 / 2 ^ 53)) = 7205759403792794"
    by (rule rhe_down) simp_all
  have "round64 (3602879701896397 / 4503599627370496) = Fin (real_of_int 7205759403792794 * (1 / 2 ^ 53))"
  proof (rule round64_eval[where K = "-1"])
    show "2 powr real_of_int (-1) \<le> \<bar>3602879701896397 / 4503599627370496 :: real\<bar>"
      by (simp add: powr_minus powr_realpow divide_simps)
    show "\<bar>3602879701896397 / 4503599627370496 :: real\<bar> < 2 powr real_of_int (-1 + 1)"
      by (simp add: powr_minus powr_realpow divide_simps)
    show "(1 / 2 ^ 53 :: real) = 2 powr real_of_int (-1 - 52)"
      by (simp add: powr_minus powr_realpow divide_simps)
    show "round_half_even ((3602879701896397 / 4503599627370496) / (1 / 2 ^ 53)) = 7205759403792794"
      by (rule r)
  qed simp_all
  then show ?thesis by simp
qed

lemma skew_step_5: "round64 (3242591731706757 / 9007199254740992) = Fin (3242591731706757 / 9007199254740992)"
proof -
  have r: "round_half_even ((3242591731706757 / 9007199254740992) / (1 / 2 ^ 54)) = 6485183463413514"
    by (rule rhe_down) simp_all
  have "round64 (3242591731706757 / 9007199254740992) = Fin (real_of_int 6485183463413514 * (1 / 2 ^ 54))"
  proof (rule round64_eval[where K = "-2"])
    show "2 powr real_of_int (-2) \<le> \<bar>3242591731706757 / 9007199254740992 :: real\<bar>"
      by (simp add: powr_minus powr_realpow divide_simps)
    show "\<bar>3242591731706757 / 9007199254740992 :: real\<bar> < 2 powr real_of_int (-2 + 1)"
      by (simp add: powr_minus powr_realpow divide_simps)
    show "(1 / 2 ^ 54 :: real) = 2 powr real_of_int (-2 - 52)"
      by (simp add: powr_minus powr_realpow divide_simps)
    show "round_half_even ((3242591731706757 / 9007199254740992) / (1 / 2 ^ 54)) = 6485183463413514"
      by (rule r)
  qed simp_all
  then show ?thesis by simp
qed

lemma skew_step_6: "round64 (29206669829258403248756220714025 / 81129638414606681695789005144064) = Fin (3242591731706757 / 9007199254740992)"
proof -
  have r: "round_half_even ((29206669829258403248756220714025 / 81129638414606681695789005144064) / (1 / 2 ^ 54)) = 6485183463413513 + 1"
    by (rule rhe_up) simp_all
  have "round64 (29206669829258403248756220714025 / 81129638414606681695789005144064) = Fin (real_of_int (6485183463413513 + 1) * (1 / 2 ^ 54))"
  proof (rule round64_eval[where K = "-2"])
    show "2 powr real_of_int (-2) \<le> \<bar>29206669829258403248756220714025 / 81129638414606681695789005144064 :: real\<bar>"
      by (simp add: powr_minus powr_realpow divide_simps)
    show "\<bar>29206669829258403248756220714025 / 81129638414606681695789005144064 :: real\<bar> < 2 powr real_of_int (-2 + 1)"
      by (simp add: powr_minus powr_realpow divide_simps)
    show "(1 / 2 ^ 54 :: real) = 2 powr real_of_int (-2 - 52)"
      by (simp add: powr_minus powr_realpow divide_simps)
    show "round_half_even ((29206669829258403248756220714025 / 81129638414606681695789005144064) / (1 / 2 ^ 54)) = (6485183463413513 + 1)"
      by (rule r)
  qed simp_all
  then show ?thesis by simp
qed

lemma skew_step_7: "round64 (1441151880758559 / 2251799813685248) = Fin (1441151880758559 / 2251799813685248)"
proof -
  have r: "round_half_even ((1441151880758559 / 2251799813685248) / (1 / 2 ^ 53)) = 5764607523034236"
    by (rule rhe_down) simp_all
  have "round64 (1441151880758559 / 2251799813685248) = Fin (real_of_int 5764607523034236 * (1 / 2 ^ 53))"
  proof (rule round64_eval[where K = "-1"])
    show "2 powr real_of_int (-1) \<le> \<bar>1441151880758559 / 2251799813685248 :: real\<bar>"
      by (simp add: powr_minus powr_realpow divide_simps)
    show "\<bar>1441151880758559 / 2251799813685248 :: real\<bar> < 2 powr real_of_int (-1 + 1)"
      by (simp add: powr_minus powr_realpow divide_simps)
    show "(1 / 2 ^ 53 :: real) = 2 powr real_of_int (-1 - 52)"
      by (simp add: powr_minus powr_realpow divide_simps)
    show "round_half_even ((1441151880758559 / 2251799813685248) / (1 / 2 ^ 53)) = 5764607523034236"
      by (rule r)
  qed simp_all
  then show ?thesis by simp
qed

lemma skew_step_8: "round64 (12980742146337070512478121581609 / 20282409603651670423947251286016) = Fin (1441151880758559 / 2251799813685248)"
proof -
  have r: "round_half_even ((12980742146337070512478121581609 / 20282409603651670423947251286016) / (1 / 2 ^ 53)) = 5764607523034235 + 1"
    by (rule rhe_up) simp_all
  have "round64 (12980742146337070512478121581609 / 20282409603651670423947251286016) = Fin (real_of_int (5764607523034235 + 1) * (1 / 2 ^ 53))"
  proof (rule round64_eval[where K = "-1"])
    show "2 powr real_of_int (-1) \<le> \<bar>12980742146337070512478121581609 / 20282409603651670423947251286016 :: real\<bar>"
      by (simp add: powr_minus powr_realpow divide_simps)
    show "\<bar>12980742146337070512478121581609 / 20282409603651670423947251286016 :: real\<bar> < 2 powr real_of_int (-1 + 1)"
      by (simp add: powr_minus powr_realpow divide_simps)
    show "(1 / 2 ^ 53 :: real) = 2 powr real_of_int (-1 - 52)"
      by (simp add: powr_minus powr_realpow divide_simps)
    show "round_half_even ((12980742146337070512478121581609 / 20282409603651670423947251286016) / (1 / 2 ^ 53)) = (5764607523034235 + 1)"
      by (rule r)
  qed simp_all
  then show ?thesis by simp
qed

lemma skew_step_9: "round64 (1) = Fin (1)"
proof -
  have r: "round_half_even ((1) / (1 / 2 ^ 52)) = 4503599627370496"
    by (rule rhe_down) simp_all
  have "round64 (1) = Fin (real_of_int 4503599627370496 * (1 / 2 ^ 52))"
  proof (rule round64_eval[where K = "0"])
    show "2 powr real_of_int (0) \<le> \<bar>1 :: real\<bar>"
      by (simp add: powr_minus powr_realpow divide_simps)
    show "\<bar>1 :: real\<bar> < 2 powr real_of_int (0 + 1)"
      by (simp add: powr_minus powr_realpow divide_simps)
    show "(1 / 2 ^ 52 :: real) = 2 powr real_of_int (0 - 52)"
      by (simp add: powr_minus powr_realpow divide_simps)
    show "round_half_even ((1) / (1 / 2 ^ 52)) = 4503599627370496"
      by (rule r)
  qed simp_all
  then show ?thesis by simp
qed

lemma skew_step_10: "round64 (9007199254740993 / 9007199254740992) = Fin (1)"
proof -
  have "round_half_even ((9007199254740993 / 9007199254740992) / (1 / 2 ^ 52)) = (if even (4503599627370496::int) then 4503599627370496 else 4503599627370496 + 1)"
    by (rule rhe_tie) simp
  then have r: "round_half_even ((9007199254740993 / 9007199254740992) / (1 / 2 ^ 52)) = 4503599627370496"
    by simp
  have "round64 (9007199254740993 / 9007199254740992) = Fin (real_of_int 4503599627370496 * (1 / 2 ^ 52))"
  proof (rule round64_eval[where K = "0"])
    show "2 powr real_of_int (0) \<le> \<bar>9007199254740993 / 9007199254740992 :: real\<bar>"
      by (simp add: powr_minus powr_realpow divide_simps)
    show "\<bar>9007199254740993 / 9007199254740992 :: real\<bar> < 2 powr real_of_int (0 + 1)"
      by (simp add: powr_minus powr_realpow divide_simps)
    show "(1 / 2 ^ 52 :: real) = 2 powr real_of_int (0 - 52)"
      by (simp add: powr_minus powr_realpow divide_simps)
    show "round_half_even ((9007199254740993 / 9007199254740992) / (1 / 2 ^ 52)) = 4503599627370496"
      by (rule r)
  qed simp_all
  then show ?thesis by simp
qed

lemma skew_step_11: "round64 (3602879701896397 / 2251799813685248) = Fin (3602879701896397 / 2251799813685248)"
proof -
  have r: "round_half_even ((3602879701896397 / 2251799813685248) / (1 / 2 ^ 52)) = 7205759403792794"
    by (rule rhe_down) simp_all
  have "round64 (3602879701896397 / 2251799813685248) = Fin (real_of_int 7205759403792794 * (1 / 2 ^ 52))"
  proof (rule round64_eval[where K = "0"])
    show "2 powr real_of_int (0) \<le> \<bar>3602879701896397 / 2251799813685248 :: real\<bar>"
      by (simp add: powr_minus powr_realpow divide_simps)
    show "\<bar>3602879701896397 / 2251799813685248 :: real\<bar> < 2 powr real_of_int (0 + 1)"
      by (simp add: powr_minus powr_realpow divide_simps)
    show "(1 / 2 ^ 52 :: real) = 2 powr real_of_int (0 - 52)"
      by (simp add: powr_minus powr_realpow divide_simps)
    show "round_half_even ((3602879701896397 / 2251799813685248) / (1 / 2 ^ 52)) = 7205759403792794"
      by (rule r)
  qed simp_all
  then show ?thesis by simp
qed

lemma skew_step_12: "round64 (1080863910568919 / 1125899906842624) = Fin (1080863910568919 / 1125899906842624)"
proof -
  have r: "round_half_even ((1080863910568919 / 1125899906842624) / (1 / 2 ^ 53)) = 8646911284551352"
    by (rule rhe_down) simp_all
  have "round64 (1080863910568919 / 1125899906842624) = Fin (real_of_int 8646911284551352 * (1 / 2 ^ 53))"
  proof (rule round64_eval[where K = "-1"])
    show "2 powr real_of_int (-1) \<le> \<bar>1080863910568919 / 1125899906842624 :: real\<bar>"
      by (simp add: powr_minus powr_realpow divide_simps)
    show "\<bar>1080863910568919 / 1125899906842624 :: real\<bar> < 2 powr real_of_int (-1 + 1)"
      by (simp add: powr_minus powr_realpow divide_simps)
    show "(1 / 2 ^ 53 :: real) = 2 powr real_of_int (-1 - 52)"
      by (simp add: powr_minus powr_realpow divide_simps)
    show "round_half_even ((1080863910568919 / 1125899906842624) / (1 / 2 ^ 53)) = 8646911284551352"
      by (rule r)
  qed simp_all
  then show ?thesis by simp
qed

lemma skew_step_13: "round64 (19471113219505603967277331424215 / 20282409603651670423947251286016) = Fin (1080863910568919 / 1125899906842624)"
proof -
  have r: "round_half_even ((19471113219505603967277331424215 / 20282409603651670423947251286016) / (1 / 2 ^ 53)) = 8646911284551352"
    by (rule rhe_down) simp_all
  have "round64 (19471113219505603967277331424215 / 20282409603651670423947251286016) = Fin (real_of_int 8646911284551352 * (1 / 2 ^ 53))"
  proof (rule round64_eval[where K = "-1"])
    show "2 powr real_of_int (-1) \<le> \<bar>19471113219505603967277331424215 / 20282409603651670423947251286016 :: real\<bar>"
      by (simp add: powr_minus powr_realpow divide_simps)
    show "\<bar>19471113219505603967277331424215 / 20282409603651670423947251286016 :: real\<bar> < 2 powr real_of_int (-1 + 1)"
      by (simp add: powr_minus powr_realpow divide_simps)
    show "(1 / 2 ^ 53 :: real) = 2 powr real_of_int (-1 - 52)"
      by (simp add: powr_minus powr_realpow divide_simps)
    show "round_half_even ((19471113219505603967277331424215 / 20282409603651670423947251286016) / (1 / 2 ^ 53)) = 8646911284551352"
      by (rule r)
  qed simp_all
  then show ?thesis by simp
qed

lemma skew_step_14: "round64 (1441151880758559 / 1125899906842624) = Fin (1441151880758559 / 1125899906842624)"
proof -
  have r: "round_half_even ((1441151880758559 / 1125899906842624) / (1 / 2 ^ 52)) = 5764607523034236"
    by (rule rhe_down) simp_all
  have "round64 (1441151880758559 / 1125899906842624) = Fin (real_of_int 5764607523034236 * (1 / 2 ^ 52))"
  proof (rule round64_eval[where K = "0"])
    show "2 powr real_of_int (0) \<le> \<bar>1441151880758559 / 1125899906842624 :: real\<bar>"
      by (simp add: powr_minus powr_realpow divide_simps)
    show "\<bar>1441151880758559 / 1125899906842624 :: real\<bar> < 2 powr real_of_int (0 + 1)"
      by (simp add: powr_minus powr_realpow divide_simps)
    show "(1 / 2 ^ 52 :: real) = 2 powr real_of_int (0 - 52)"
      by (simp add: powr_minus powr_realpow divide_simps)
    show "round_half_even ((1441151880758559 / 1125899906842624) / (1 / 2 ^ 52)) = 5764607523034236"
      by (rule r)
  qed simp_all
  then show ?thesis by simp
qed

lemma skew_step_15: "round64 (12980742146337070512478121581609 / 10141204801825835211973625643008) = Fin (1441151880758559 / 1125899906842624)"
proof -
  have r: "round_half_even ((12980742146337070512478121581609 / 10141204801825835211973625643008) / (1 / 2 ^ 52)) = 5764607523034235 + 1"
    by (rule rhe_up) simp_all
  have "round64 (12980742146337070512478121581609 / 10141204801825835211973625643008) = Fin (real_of_int (5764607523034235 + 1) * (1 / 2 ^ 52))"
  proof (rule round64_eval[where K = "0"])
    show "2 powr real_of_int (0) \<le> \<bar>12980742146337070512478121581609 / 10141204801825835211973625643008 :: real\<bar>"
      by (simp add: powr_minus powr_realpow divide_simps)
    show "\<bar>12980742146337070512478121581609 / 10141204801825835211973625643008 :: real\<bar> < 2 powr real_of_int (0 + 1)"
      by (simp add: powr_minus powr_realpow divide_simps)
    show "(1 / 2 ^ 52 :: real) = 2 powr real_of_int (0 - 52)"
      by (simp add: powr_minus powr_realpow divide_simps)
    show "round_half_even ((12980742146337070512478121581609 / 10141204801825835211973625643008) / (1 / 2 ^ 52)) = (5764607523034235 + 1)"
      by (rule r)
  qed simp_all
  then show ?thesis by simp
qed

lemma skew_step_16: "round64 (315251973915935 / 1125899906842624) = Fin (315251973915935 / 1125899906842624)"
proof -
  have r: "round_half_even ((315251973915935 / 1125899906842624) / (1 / 2 ^ 54)) = 5044031582654960"
    by (rule rhe_down) simp_all
  have "round64 (315251973915935 / 1125899906842624) = Fin (real_of_int 5044031582654960 * (1 / 2 ^ 54))"
  proof (rule round64_eval[where K = "-2"])
    show "2 powr real_of_int (-2) \<le> \<bar>315251973915935 / 1125899906842624 :: real\<bar>"
      by (simp add: powr_minus powr_realpow divide_simps)
    show "\<bar>315251973915935 / 1125899906842624 :: real\<bar> < 2 powr real_of_int (-2 + 1)"
      by (simp add: powr_minus powr_realpow divide_simps)
    show "(1 / 2 ^ 54 :: real) = 2 powr real_of_int (-2 - 52)"
      by (simp add: powr_minus powr_realpow divide_simps)
    show "round_half_even ((315251973915935 / 1125899906842624) / (1 / 2 ^ 54)) = 5044031582654960"
      by (rule r)
  qed simp_all
  then show ?thesis by simp
qed

lemma skew_step_17: "round64 (5188146770730811 / 9007199254740992) = Fin (5188146770730811 / 9007199254740992)"
proof -
  have r: "round_half_even ((5188146770730811 / 9007199254740992) / (1 / 2 ^ 53)) = 5188146770730811"
    by (rule rhe_down) simp_all
  have "round64 (5188146770730811 / 9007199254740992) = Fin (real_of_int 5188146770730811 * (1 / 2 ^ 53))"
  proof (rule round64_eval[where K = "-1"])
    show "2 powr real_of_int (-1) \<le> \<bar>5188146770730811 / 9007199254740992 :: real\<bar>"
      by (simp add: powr_minus powr_realpow divide_simps)
    show "\<bar>5188146770730811 / 9007199254740992 :: real\<bar> < 2 powr real_of_int (-1 + 1)"
      by (simp add: powr_minus powr_realpow divide_simps)
    show "(1 / 2 ^ 53 :: real) = 2 powr real_of_int (-1 - 52)"
      by (simp add: powr_minus powr_realpow divide_simps)
    show "round_half_even ((5188146770730811 / 9007199254740992) / (1 / 2 ^ 53)) = 5188146770730811"
      by (rule r)
  qed simp_all
  then show ?thesis by simp
qed

lemma skew_step_18: "round64 (5841333965851680649751244142805 / 10141204801825835211973625643008) = Fin (5188146770730811 / 9007199254740992)"
proof -
  have r: "round_half_even ((5841333965851680649751244142805 / 10141204801825835211973625643008) / (1 / 2 ^ 53)) = 5188146770730811"
    by (rule rhe_down) simp_all
  have "round64 (5841333965851680649751244142805 / 10141204801825835211973625643008) = Fin (real_of_int 5188146770730811 * (1 / 2 ^ 53))"
  proof (rule round64_eval[where K = "-1"])
    show "2 powr real_of_int (-1) \<le> \<bar>5841333965851680649751244142805 / 10141204801825835211973625643008 :: real\<bar>"
      by (simp add: powr_minus powr_realpow divide_simps)
    show "\<bar>5841333965851680649751244142805 / 10141204801825835211973625643008 :: real\<bar> < 2 powr real_of_int (-1 + 1)"
      by (simp add: powr_minus powr_realpow divide_simps)
    show "(1 / 2 ^ 53 :: real) = 2 powr real_of_int (-1 - 52)"
      by (simp add: powr_minus powr_realpow divide_simps)
    show "round_half_even ((5841333965851680649751244142805 / 10141204801825835211973625643008) / (1 / 2 ^ 53)) = 5188146770730811"
      by (rule r)
  qed simp_all
  then show ?thesis by simp
qed

lemma skew_step_19: "round64 (63050394783187 / 281474976710656) = Fin (63050394783187 / 281474976710656)"
proof -
  have r: "round_half_even ((63050394783187 / 281474976710656) / (1 / 2 ^ 55)) = 8070450532247936"
    by (rule rhe_down) simp_all
  have "round64 (63050394783187 / 281474976710656) = Fin (real_of_int 8070450532247936 * (1 / 2 ^ 55))"
  proof (rule round64_eval[where K = "-3"])
    show "2 powr real_of_int (-3) \<le> \<bar>63050394783187 / 281474976710656 :: real\<bar>"
      by (simp add: powr_minus powr_realpow divide_simps)
    show "\<bar>63050394783187 / 281474976710656 :: real\<bar> < 2 powr real_of_int (-3 + 1)"
      by (simp add: powr_minus powr_realpow divide_simps)
    show "(1 / 2 ^ 55 :: real) = 2 powr real_of_int (-3 - 52)"
      by (simp add: powr_minus powr_realpow divide_simps)
    show "round_half_even ((63050394783187 / 281474976710656) / (1 / 2 ^ 55)) = 8070450532247936"
      by (rule r)
  qed simp_all
  then show ?thesis by simp
qed

lemma skew_step_20: "round64 (1135814937804494615597757386195 / 5070602400912917605986812821504) = Fin (63050394783187 / 281474976710656)"
proof -
  have r: "round_half_even ((1135814937804494615597757386195 / 5070602400912917605986812821504) / (1 / 2 ^ 55)) = 8070450532247936"
    by (rule rhe_down) simp_all
  have "round64 (1135814937804494615597757386195 / 5070602400912917605986812821504) = Fin (real_of_int 8070450532247936 * (1 / 2 ^ 55))"
  proof (rule round64_eval[where K = "-3"])
    show "2 powr real_of_int (-3) \<le> \<bar>1135814937804494615597757386195 / 5070602400912917605986812821504 :: real\<bar>"
      by (simp add: powr_minus powr_realpow divide_simps)
    show "\<bar>1135814937804494615597757386195 / 5070602400912917605986812821504 :: real\<bar> < 2 powr real_of_int (-3 + 1)"
      by (simp add: powr_minus powr_realpow divide_simps)
    show "(1 / 2 ^ 55 :: real) = 2 powr real_of_int (-3 - 52)"
      by (simp add: powr_minus powr_realpow divide_simps)
    show "round_half_even ((1135814937804494615597757386195 / 5070602400912917605986812821504) / (1 / 2 ^ 55)) = 8070450532247936"
      by (rule r)
  qed simp_all
  then show ?thesis by simp
qed

lemma skew_step_21: "round64 (7205759403792795 / 9007199254740992) = Fin (7205759403792795 / 9007199254740992)"
proof -
  have r: "round_half_even ((7205759403792795 / 9007199254740992) / (1 / 2 ^ 53)) = 7205759403792795"
    by (rule rhe_down) simp_all
  have "round64 (7205759403792795 / 9007199254740992) = Fin (real_of_int 7205759403792795 * (1 / 2 ^ 53))"
  proof (rule round64_eval[where K = "-1"])
    show "2 powr real_of_int (-1) \<le> \<bar>7205759403792795 / 9007199254740992 :: real\<bar>"
      by (simp add: powr_minus powr_realpow divide_simps)
    show "\<bar>7205759403792795 / 9007199254740992 :: real\<bar> < 2 powr real_of_int (-1 + 1)"
      by (simp add: powr_minus powr_realpow divide_simps)
    show "(1 / 2 ^ 53 :: real) = 2 powr real_of_int (-1 - 52)"
      by (simp add: powr_minus powr_realpow divide_simps)
    show "round_half_even ((7205759403792795 / 9007199254740992) / (1 / 2 ^ 53)) = 7205759403792795"
      by (rule r)
  qed simp_all
  then show ?thesis by simp
qed

lemma skew_step_22: "round64 (7205759403792795 / 4503599627370496) = Fin (7205759403792795 / 4503599627370496)"
proof -
  have r: "round_half_even ((7205759403792795 / 4503599627370496) / (1 / 2 ^ 52)) = 7205759403792795"
    by (rule rhe_down) simp_all
  have "round64 (7205759403792795 / 4503599627370496) = Fin (real_of_int 7205759403792795 * (1 / 2 ^ 52))"
  proof (rule round64_eval[where K = "0"])
    show "2 powr real_of_int (0) \<le> \<bar>7205759403792795 / 4503599627370496 :: real\<bar>"
      by (simp add: powr_minus powr_realpow divide_simps)
    show "\<bar>7205759403792795 / 4503599627370496 :: real\<bar> < 2 powr real_of_int (0 + 1)"
      by (simp add: powr_minus powr_realpow divide_simps)
    show "(1 / 2 ^ 52 :: real) = 2 powr real_of_int (0 - 52)"
      by (simp add: powr_minus powr_realpow divide_simps)
    show "round_half_even ((7205759403792795 / 4503599627370496) / (1 / 2 ^ 52)) = 7205759403792795"
      by (rule r)
  qed simp_all
  then show ?thesis by simp
qed

lemma skew_step_23: "round64 (4323455642275677 / 4503599627370496) = Fin (4323455642275677 / 4503599627370496)"
proof -
  have r: "round_half_even ((4323455642275677 / 4503599627370496) / (1 / 2 ^ 53)) = 8646911284551354"
    by (rule rhe_down) simp_all
  have "round64 (4323455642275677 / 4503599627370496) = Fin (real_of_int 8646911284551354 * (1 / 2 ^ 53))"
  proof (rule round64_eval[where K = "-1"])
    show "2 powr real_of_int (-1) \<le> \<bar>4323455642275677 / 4503599627370496 :: real\<bar>"
      by (simp add: powr_minus powr_realpow divide_simps)
    show "\<bar>4323455642275677 / 4503599627370496 :: real\<bar> < 2 powr real_of_int (-1 + 1)"
      by (simp add: powr_minus powr_realpow divide_simps)
    show "(1 / 2 ^ 53 :: real) = 2 powr real_of_int (-1 - 52)"
      by (simp add: powr_minus powr_realpow divide_simps)
    show "round_half_even ((4323455642275677 / 4503599627370496) / (1 / 2 ^ 53)) = 8646911284551354"
      by (rule r)
  qed simp_all
  then show ?thesis by simp
qed

lemma skew_step_24: "round64 (38942226439011213338874215693025 / 40564819207303340847894502572032) = Fin (4323455642275677 / 4503599627370496)"
proof -
  have r: "round_half_even ((38942226439011213338874215693025 / 40564819207303340847894502572032) / (1 / 2 ^ 53)) = 8646911284551353 + 1"
    by (rule rhe_up) simp_all
  have "round64 (38942226439011213338874215693025 / 40564819207303340847894502572032) = Fin (real_of_int (8646911284551353 + 1) * (1 / 2 ^ 53))"
  proof (rule round64_eval[where K = "-1"])
    show "2 powr real_of_int (-1) \<le> \<bar>38942226439011213338874215693025 / 40564819207303340847894502572032 :: real\<bar>"
      by (simp add: powr_minus powr_realpow divide_simps)
    show "\<bar>38942226439011213338874215693025 / 40564819207303340847894502572032 :: real\<bar> < 2 powr real_of_int (-1 + 1)"
      by (simp add: powr_minus powr_realpow divide_simps)
    show "(1 / 2 ^ 53 :: real) = 2 powr real_of_int (-1 - 52)"
      by (simp add: powr_minus powr_realpow divide_simps)
    show "round_half_even ((38942226439011213338874215693025 / 40564819207303340847894502572032) / (1 / 2 ^ 53)) = (8646911284551353 + 1)"
      by (rule r)
  qed simp_all
  then show ?thesis by simp
qed

lemma skew_step_25: "round64 (25961484292674144627835945059615 / 20282409603651670423947251286016) = Fin (1441151880758559 / 1125899906842624)"
proof -
  have r: "round_half_even ((25961484292674144627835945059615 / 20282409603651670423947251286016) / (1 / 2 ^ 52)) = 5764607523034236"
    by (rule rhe_down) simp_all
  have "round64 (25961484292674144627835945059615 / 20282409603651670423947251286016) = Fin (real_of_int 5764607523034236 * (1 / 2 ^ 52))"
  proof (rule round64_eval[where K = "0"])
    show "2 powr real_of_int (0) \<le> \<bar>25961484292674144627835945059615 / 20282409603651670423947251286016 :: real\<bar>"
      by (simp add: powr_minus powr_realpow divide_simps)
    show "\<bar>25961484292674144627835945059615 / 20282409603651670423947251286016 :: real\<bar> < 2 powr real_of_int (0 + 1)"
      by (simp add: powr_minus powr_realpow divide_simps)
    show "(1 / 2 ^ 52 :: real) = 2 powr real_of_int (0 - 52)"
      by (simp add: powr_minus powr_realpow divide_simps)
    show "round_half_even ((25961484292674144627835945059615 / 20282409603651670423947251286016) / (1 / 2 ^ 52)) = 5764607523034236"
      by (rule r)
  qed simp_all
  then show ?thesis by simp
qed

lemma skew_step_26: "round64 (1 / 4503599627370496) = Fin (1 / 4503599627370496)"
proof -
  have r: "round_half_even ((1 / 4503599627370496) / (1 / 2 ^ 104)) = 4503599627370496"
    by (rule rhe_down) simp_all
  have "round64 (1 / 4503599627370496) = Fin (real_of_int 4503599627370496 * (1 / 2 ^ 104))"
  proof (rule round64_eval[where K = "-52"])
    show "2 powr real_of_int (-52) \<le> \<bar>1 / 4503599627370496 :: real\<bar>"
      by (simp add: powr_minus powr_realpow divide_simps)
    show "\<bar>1 / 4503599627370496 :: real\<bar> < 2 powr real_of_int (-52 + 1)"
      by (simp add: powr_minus powr_realpow divide_simps)
    show "(1 / 2 ^ 104 :: real) = 2 powr real_of_int (-52 - 52)"
      by (simp add: powr_minus powr_realpow divide_simps)
    show "round_half_even ((1 / 4503599627370496) / (1 / 2 ^ 104)) = 4503599627370496"
      by (rule r)
  qed simp_all
  then show ?thesis by simp
qed

lemmas skew_steps = skew_step_1 skew_step_2 skew_step_3 skew_step_4 skew_step_5 skew_step_6 skew_step_7 skew_step_8 skew_step_9 skew_step_10 skew_step_11 skew_step_12 skew_step_13 skew_step_14 skew_step_15 skew_step_16 skew_step_17 skew_step_18 skew_step_19 skew_step_20 skew_step_21 skew_step_22 skew_step_23 skew_step_24 skew_step_25 skew_step_26

lemma skew_normal: "dot (round64 0.6, round64 0.8, Fin 0) (round64 0.6, round64 0.8, Fin 0) = Fin 1"
  by (simp add: skew_steps)

lemma skew_once:
  "reflectRay (Fin 0, Fin 1, Fin 0) (round64 0.6, round64 0.8, Fin 0) = (Fin (1080863910568919 / 1125899906842624), Fin (315251973915935 / 1125899906842624), Fin 0)"
  by (simp add: reflectRay_def skew_steps)

lemma skew_twice:
  "reflectRay (Fin (1080863910568919 / 1125899906842624), Fin (315251973915935 / 1125899906842624), Fin 0) (round64 0.6, round64 0.8, Fin 0) = (Fin (1 / 4503599627370496), Fin 1, Fin 0)"
  by (simp add: reflectRay_def skew_steps)

section \<open>Claims\<close>

text \<open>
  C1. \<^verbatim>\<open>closestIntersection\<close> scans every sphere of the scene and both roots of each. It
  selects no sphere exactly when no root of any sphere lies strictly between \<open>tMin\<close> and
  \<open>tMax\<close>, and then returns the distance \<^verbatim>\<open>Infinity\<close>; this is so for the empty list, and
  the caller \<^verbatim>\<open>traceRay\<close> then answers the background colour whatever the distance.
  Otherwise the selected sphere is one of the scene, the distance is one of its two
  roots, strictly inside the interval, and no root of any sphere that lies strictly
  inside the interval is smaller.
\<close>

theorem closestIntersection_smallest_root:
  assumes "closestIntersection sc O' D tMin tMax = (cs, ct)"
  shows "(cs = None \<longleftrightarrow>
            (\<forall>s \<in> set (spheres sc).
               \<not> (tMin < fst (intersectRaySphere O' D s) \<and> fst (intersectRaySphere O' D s) < tMax) \<and>
               \<not> (tMin < snd (intersectRaySphere O' D s) \<and> snd (intersectRaySphere O' D s) < tMax))) \<and>
         (cs = None \<longrightarrow> ct = PInf \<and>
            (\<forall>fuel depth. traceRay (Suc fuel) sc O' D tMin tMax depth = Some backgroundColor)) \<and>
         (spheres sc = [] \<longrightarrow> cs = None) \<and>
         (\<forall>s. cs = Some s \<longrightarrow>
            s \<in> set (spheres sc) \<and>
            (ct = fst (intersectRaySphere O' D s) \<or> ct = snd (intersectRaySphere O' D s)) \<and>
            tMin < ct \<and> ct < tMax \<and>
            (\<forall>s' \<in> set (spheres sc).
               (tMin < fst (intersectRaySphere O' D s') \<and> fst (intersectRaySphere O' D s') < tMax
                  \<longrightarrow> ct \<le> fst (intersectRaySphere O' D s')) \<and>
               (tMin < snd (intersectRaySphere O' D s') \<and> snd (intersectRaySphere O' D s') < tMax
                  \<longrightarrow> ct \<le> snd (intersectRaySphere O' D s'))))"
proof -
  note inv = closestIntersection_inv[OF assms]
  have le: "ct \<le> t"
    if "x \<in> set (spheres sc)"
      "t = fst (intersectRaySphere O' D x) \<or> t = snd (intersectRaySphere O' D x)"
      "tMin < t" "t < tMax" "tMin < ct" "ct < tMax" for x t
  proof -
    note h = that
    obtain a where a: "t = Fin a" using number_between_fin[OF h(3,4)] by blast
    obtain b where b: "ct = Fin b" using number_between_fin[OF h(5,6)] by blast
    show ?thesis
      using closestIntersection_least[OF assms h(1-4)] by (auto simp: a b less_eq_number_def)
  qed
  have miss: "cs = None \<longrightarrow> ct = PInf \<and>
            (\<forall>fuel depth. traceRay (Suc fuel) sc O' D tMin tMax depth = Some backgroundColor)"
    using inv traceRay_miss[of sc O' D tMin tMax] assms by auto
  have empty: "spheres sc = [] \<longrightarrow> cs = None"
    using assms by (auto simp: closestIntersection_def)
  have hit: "\<forall>s. cs = Some s \<longrightarrow>
            s \<in> set (spheres sc) \<and>
            (ct = fst (intersectRaySphere O' D s) \<or> ct = snd (intersectRaySphere O' D s)) \<and>
            tMin < ct \<and> ct < tMax \<and>
            (\<forall>s' \<in> set (spheres sc).
               (tMin < fst (intersectRaySphere O' D s') \<and> fst (intersectRaySphere O' D s') < tMax
                  \<longrightarrow> ct \<le> fst (intersectRaySphere O' D s')) \<and>
               (tMin < snd (intersectRaySphere O' D s') \<and> snd (intersectRaySphere O' D s') < tMax
                  \<longrightarrow> ct \<le> snd (intersectRaySphere O' D s')))"
    using inv le by auto
  from closestIntersection_none_iff[OF assms] miss empty hit show ?thesis by blast
qed

theorem closestIntersection_smallest_root_witness:
  "closestIntersection scenarioScene scenarioOrigin scenarioDir (Fin 1) PInf
     = (Some scenarioSphere, Fin 4) \<and>
   scenarioSphere \<in> set (spheres scenarioScene) \<and>
   Fin 1 < Fin 4 \<and> Fin 4 < PInf \<and>
   Fin 4 = snd (intersectRaySphere scenarioOrigin scenarioDir scenarioSphere) \<and>
   Fin 4 \<le> fst (intersectRaySphere scenarioOrigin scenarioDir scenarioSphere) \<and>
   closestIntersection scenarioScene scenarioOrigin scenarioDir (Fin 1) (Fin 3) = (None, PInf) \<and>
   \<not> fst (intersectRaySphere scenarioOrigin scenarioDir scenarioSphere) < Fin 3 \<and>
   \<not> snd (intersectRaySphere scenarioOrigin scenarioDir scenarioSphere) < Fin 3 \<and>
   traceRay (Suc 0) scenarioScene scenarioOrigin scenarioDir (Fin 1) (Fin 3) defaultDepth
     = Some backgroundColor"
  using closestIntersection_smallest_root[OF scenario_hit]
    closestIntersection_smallest_root[OF scenario_miss]
  by (simp add: scenario_hit scenario_miss scenario_roots scenario_spheres less_eq_number_def
      del: traceRay.simps)

text \<open>
  C9. \<^verbatim>\<open>closestIntersection\<close> returns no sphere exactly when it returns the distance
  \<^verbatim>\<open>Infinity\<close>; a returned sphere is one of the scene, and the distance returned with it
  lies strictly between \<open>tMin\<close> and \<open>tMax\<close> and is one of the two roots that
  \<^verbatim>\<open>intersectRaySphere\<close> gives for that sphere.
\<close>

theorem closestIntersection_sentinel:
  "(fst (closestIntersection sc O' D tMin tMax) = None
      \<longleftrightarrow> snd (closestIntersection sc O' D tMin tMax) = PInf) \<and>
   (\<forall>s. fst (closestIntersection sc O' D tMin tMax) = Some s \<longrightarrow>
      s \<in> set (spheres sc) \<and>
      tMin < snd (closestIntersection sc O' D tMin tMax) \<and>
      snd (closestIntersection sc O' D tMin tMax) < tMax \<and>
      (snd (closestIntersection sc O' D tMin tMax) = fst (intersectRaySphere O' D s) \<or>
       snd (closestIntersection sc O' D tMin tMax) = snd (intersectRaySphere O' D s)))"
proof -
  obtain cs ct where r: "closestIntersection sc O' D tMin tMax = (cs, ct)"
    by (cases "closestIntersection sc O' D tMin tMax")
  show ?thesis
    using closestIntersection_inv[OF r] unfolding r by (cases tMax) auto
qed

theorem closestIntersection_sentinel_witness:
  "fst (closestIntersection scenarioScene scenarioOrigin scenarioDir (Fin 1) PInf)
     = Some scenarioSphere \<and>
   snd (closestIntersection scenarioScene scenarioOrigin scenarioDir (Fin 1) PInf) \<noteq> PInf \<and>
   scenarioSphere \<in> set (spheres scenarioScene) \<and>
   Fin 1 < snd (closestIntersection scenarioScene scenarioOrigin scenarioDir (Fin 1) PInf) \<and>
   snd (closestIntersection scenarioScene scenarioOrigin scenarioDir (Fin 1) PInf) < PInf \<and>
   snd (closestIntersection scenarioScene scenarioOrigin scenarioDir (Fin 1) PInf)
     = snd (intersectRaySphere scenarioOrigin scenarioDir scenarioSphere)"
  using closestIntersection_sentinel[of scenarioScene scenarioOrigin scenarioDir "Fin 1" PInf]
  by (simp add: scenario_hit scenario_roots)

text \<open>
  C6. When no root of any sphere of the scene lies strictly between \<open>tMin\<close> and
  \<open>tMax\<close>, \<^verbatim>\<open>traceRay\<close> returns the background colour, whatever the depth. In the
  scenario of the single sphere the roots are 6 and 4, and with \<open>tMax = 3\<close> the answer
  is the background colour.
\<close>

theorem traceRay_background:
  "((\<forall>s \<in> set (spheres sc).
       \<not> (tMin < fst (intersectRaySphere O' D s) \<and> fst (intersectRaySphere O' D s) < tMax) \<and>
       \<not> (tMin < snd (intersectRaySphere O' D s) \<and> snd (intersectRaySphere O' D s) < tMax))
     \<longrightarrow> traceRay (Suc fuel) sc O' D tMin tMax depth = Some backgroundColor) \<and>
   intersectRaySphere scenarioOrigin scenarioDir scenarioSphere = (Fin 6, Fin 4) \<and>
   traceRay (Suc fuel) scenarioScene scenarioOrigin scenarioDir (Fin 1) (Fin 3) depth
     = Some backgroundColor"
proof -
  obtain cs ct where r: "closestIntersection sc O' D tMin tMax = (cs, ct)"
    by (cases "closestIntersection sc O' D tMin tMax")
  have "traceRay (Suc fuel) sc O' D tMin tMax depth = Some backgroundColor"
    if "\<forall>s \<in> set (spheres sc).
       \<not> (tMin < fst (intersectRaySphere O' D s) \<and> fst (intersectRaySphere O' D s) < tMax) \<and>
       \<not> (tMin < snd (intersectRaySphere O' D s) \<and> snd (intersectRaySphere O' D s) < tMax)"
    using closestIntersection_none_iff[OF r] that traceRay_miss[of sc O' D tMin tMax] r by simp
  moreover have "traceRay (Suc fuel) scenarioScene scenarioOrigin scenarioDir (Fin 1) (Fin 3) depth
     = Some backgroundColor"
    by (rule traceRay_miss) (simp add: scenario_miss)
  ultimately show ?thesis
    using scenario_roots by blast
qed

theorem traceRay_background_witness:
  "\<not> (Fin 1 < fst (intersectRaySphere scenarioOrigin scenarioDir scenarioSphere) \<and>
      fst (intersectRaySphere scenarioOrigin scenarioDir scenarioSphere) < Fin 3) \<and>
   \<not> (Fin 1 < snd (intersectRaySphere scenarioOrigin scenarioDir scenarioSphere) \<and>
      snd (intersectRaySphere scenarioOrigin scenarioDir scenarioSphere) < Fin 3) \<and>
   traceRay (Suc 0) scenarioScene scenarioOrigin scenarioDir (Fin 1) (Fin 3) defaultDepth
     = Some backgroundColor"
  using traceRay_background[of scenarioScene "Fin 1" scenarioOrigin scenarioDir "Fin 3" 0 defaultDepth]
  by (simp add: scenario_roots scenario_spheres del: traceRay.simps)

text \<open>
  C7. In the scene of one sphere at (0, 0, 5) of radius 1 and colour (255, 0, 0), specular
  exponent -1 and reflective coefficient 0, under one ambient light of intensity 1, the ray
  from the origin along (0, 0, 1) with \<open>tMin = 1\<close> and \<open>tMax = Infinity\<close> meets the
  sphere at \<open>t = 4\<close>, and \<^verbatim>\<open>traceRay\<close> returns the colour (255, 0, 0), at every depth
  and within one activation.
\<close>

theorem traceRay_scenario:
  "closestIntersection scenarioScene scenarioOrigin scenarioDir (Fin 1) PInf
     = (Some scenarioSphere, Fin 4) \<and>
   traceRay (Suc fuel) scenarioScene scenarioOrigin scenarioDir (Fin 1) PInf depth
     = Some (Fin 255, Fin 0, Fin 0)"
proof -
  have "traceRay (Suc fuel) scenarioScene scenarioOrigin scenarioDir (Fin 1) PInf depth
     = Some (Fin 255, Fin 0, Fin 0)"
    by (simp add: scenario_hit)
      (simp add: scenarioScene_def scenarioSphere_def scenarioOrigin_def scenarioDir_def
        computeLighting_def less_eq_number_def Let_def)
  then show ?thesis
    using scenario_hit by simp
qed

text \<open>
  C5. Called with depth 0, \<^verbatim>\<open>traceRay\<close> returns within one activation, whatever the
  scene and the ray: it makes no recursive call, and more allowance changes nothing. On
  a hit with \<open>depth \<le> 0\<close> or a reflective coefficient \<open>\<le> 0\<close> it returns the local
  colour as it is, again within one activation.
\<close>

theorem traceRay_no_mirror:
  "traceRay (Suc 0) sc O' D tMin tMax (Fin 0) \<noteq> None \<and>
   traceRay (Suc fuel) sc O' D tMin tMax (Fin 0) = traceRay (Suc 0) sc O' D tMin tMax (Fin 0) \<and>
   (\<forall>sph t. closestIntersection sc O' D tMin tMax = (Some sph, t) \<and>
       (depth \<le> Fin 0 \<or> reflective sph \<le> Fin 0) \<longrightarrow>
       (let P = add O' (scale t D);
            N = scale (Fin 1 / len (sub P (center sph))) (sub P (center sph));
            V = scale (Fin (- 1)) D;
            localColor = scale (computeLighting sc P N V (specular sph)) (color sph)
        in traceRay (Suc fuel) sc O' D tMin tMax depth = Some localColor \<and>
           traceRay (Suc 0) sc O' D tMin tMax depth = Some localColor))"
proof -
  obtain cs ct where r: "closestIntersection sc O' D tMin tMax = (cs, ct)"
    by (cases "closestIntersection sc O' D tMin tMax")
  have z: "Fin 0 \<le> Fin 0"
    by (simp add: less_eq_number_def)
  have a: "traceRay (Suc 0) sc O' D tMin tMax (Fin 0) \<noteq> None"
    using r z by (cases cs) (simp_all add: Let_def)
  have b: "traceRay (Suc fuel) sc O' D tMin tMax (Fin 0) = traceRay (Suc 0) sc O' D tMin tMax (Fin 0)"
    using r z by (cases cs) (simp_all add: Let_def)
  have c: "\<forall>sph t. closestIntersection sc O' D tMin tMax = (Some sph, t) \<and>
       (depth \<le> Fin 0 \<or> reflective sph \<le> Fin 0) \<longrightarrow>
       (let P = add O' (scale t D);
            N = scale (Fin 1 / len (sub P (center sph))) (sub P (center sph));
            V = scale (Fin (- 1)) D;
            localColor = scale (computeLighting sc P N V (specular sph)) (color sph)
        in traceRay (Suc fuel) sc O' D tMin tMax depth = Some localColor \<and>
           traceRay (Suc 0) sc O' D tMin tMax depth = Some localColor)"
    by (auto simp: Let_def)
  from a b c show ?thesis by blast
qed

theorem traceRay_no_mirror_witness:
  "closestIntersection mirrorScene scenarioOrigin scenarioDir (Fin 1) PInf
     = (Some mirrorSphere, Fin 4) \<and>
   Fin 0 \<le> Fin 0 \<and> \<not> reflective mirrorSphere \<le> Fin 0 \<and>
   traceRay (Suc 0) mirrorScene scenarioOrigin scenarioDir (Fin 1) PInf (Fin 0)
     = Some (Fin 255, Fin 0, Fin 0) \<and>
   closestIntersection scenarioScene scenarioOrigin scenarioDir (Fin 1) PInf
     = (Some scenarioSphere, Fin 4) \<and>
   \<not> defaultDepth \<le> Fin 0 \<and> reflective scenarioSphere \<le> Fin 0 \<and>
   traceRay (Suc 0) scenarioScene scenarioOrigin scenarioDir (Fin 1) PInf defaultDepth
     = Some (Fin 255, Fin 0, Fin 0)"
proof -
  have z: "Fin 0 \<le> Fin 0" "\<not> reflective mirrorSphere \<le> Fin 0"
    "\<not> defaultDepth \<le> Fin 0" "reflective scenarioSphere \<le> Fin 0"
    by (simp_all add: less_eq_number_def mirrorSphere_def scenarioSphere_def defaultDepth_def)
  have m: "traceRay (Suc 0) mirrorScene scenarioOrigin scenarioDir (Fin 1) PInf (Fin 0)
     = Some (Fin 255, Fin 0, Fin 0)"
    using traceRay_no_mirror[of mirrorScene scenarioOrigin scenarioDir "Fin 1" PInf 0 "Fin 0"]
      mirror_hit z(1)
    by (simp add: Let_def mirror_local del: traceRay.simps)
  have s: "traceRay (Suc 0) scenarioScene scenarioOrigin scenarioDir (Fin 1) PInf defaultDepth
     = Some (Fin 255, Fin 0, Fin 0)"
    using traceRay_no_mirror[of scenarioScene scenarioOrigin scenarioDir "Fin 1" PInf 0 defaultDepth]
      scenario_hit z(4)
    by (simp add: Let_def scenario_local del: traceRay.simps)
  from m s z mirror_hit scenario_hit show ?thesis by blast
qed

text \<open>
  C3. On a hit with \<open>depth > 0\<close>, when the reflective coefficient \<open>r\<close> is positive the
  colour returned is \<open>localColor * (1 - r) + reflectedColor * r\<close>, component by
  component. At \<open>r = 1\<close> the colour returned is the reflected colour whenever the
  components of the local colour are finite; in general each component returned at
  \<open>r = 1\<close> is the reflected one where the local one is finite and \<^verbatim>\<open>NaN\<close> where it is
  not, \<open>0 * Infinity\<close> being \<^verbatim>\<open>NaN\<close>. At \<open>r = 0\<close> the program returns the local
  colour (without the recursive call), which is also the value of the blend there when
  the components of the reflected colour are finite.
\<close>

theorem traceRay_blend:
  assumes "closestIntersection sc O' D tMin tMax = (Some sph, t)"
    and "P = add O' (scale t D)"
    and "N = scale (Fin 1 / len (sub P (center sph))) (sub P (center sph))"
    and "V = scale (Fin (- 1)) D"
    and "localColor = scale (computeLighting sc P N V (specular sph)) (color sph)"
    and "traceRay fuel sc P (reflectRay V N) (round64 0.001) PInf (depth - Fin 1) = Some reflectedColor"
    and "r = reflective sph"
    and "\<not> depth \<le> Fin 0"
  shows "(\<not> r \<le> Fin 0 \<longrightarrow>
            traceRay (Suc fuel) sc O' D tMin tMax depth
              = Some (add (scale (Fin 1 - r) localColor) (scale r reflectedColor))) \<and>
         (r = Fin 1 \<and> finite_vec localColor \<longrightarrow>
            traceRay (Suc fuel) sc O' D tMin tMax depth = Some reflectedColor) \<and>
         (r = Fin 0 \<longrightarrow> traceRay (Suc fuel) sc O' D tMin tMax depth = Some localColor) \<and>
         (r = Fin 0 \<and> finite_vec reflectedColor \<longrightarrow>
            add (scale (Fin 1 - r) localColor) (scale r reflectedColor) = localColor) \<and>
         (\<forall>l1 l2 l3 c1 c2 c3.
            r = Fin 1 \<and> localColor = (l1, l2, l3) \<and> reflectedColor = (c1, c2, c3) \<longrightarrow>
            traceRay (Suc fuel) sc O' D tMin tMax depth
              = Some (if isFinite l1 then c1 else NaN,
                      if isFinite l2 then c2 else NaN,
                      if isFinite l3 then c3 else NaN))"
proof -
  note unfold = traceRay_hit[OF assms(1-5), of fuel depth]
  have a: "\<not> r \<le> Fin 0 \<longrightarrow>
            traceRay (Suc fuel) sc O' D tMin tMax depth
              = Some (add (scale (Fin 1 - r) localColor) (scale r reflectedColor))"
    using unfold assms(6-8) by simp
  have b: "r = Fin 1 \<and> finite_vec localColor \<longrightarrow>
            traceRay (Suc fuel) sc O' D tMin tMax depth = Some reflectedColor"
  proof
    assume h: "r = Fin 1 \<and> finite_vec localColor"
    then have "\<not> r \<le> Fin 0" by (simp add: less_eq_number_def)
    moreover have "machine_vec reflectedColor"
      using assms(6) by (rule traceRay_machine)
    ultimately show "traceRay (Suc fuel) sc O' D tMin tMax depth = Some reflectedColor"
      using a h by (simp add: blend_one del: traceRay.simps)
  qed
  have c: "r = Fin 0 \<longrightarrow> traceRay (Suc fuel) sc O' D tMin tMax depth = Some localColor"
    using unfold assms(7) by (simp add: less_eq_number_def)
  have d: "r = Fin 0 \<and> finite_vec reflectedColor \<longrightarrow>
            add (scale (Fin 1 - r) localColor) (scale r reflectedColor) = localColor"
    unfolding assms(5) by (simp add: blend_zero)
  have e: "\<forall>l1 l2 l3 c1 c2 c3.
            r = Fin 1 \<and> localColor = (l1, l2, l3) \<and> reflectedColor = (c1, c2, c3) \<longrightarrow>
            traceRay (Suc fuel) sc O' D tMin tMax depth
              = Some (if isFinite l1 then c1 else NaN,
                      if isFinite l2 then c2 else NaN,
                      if isFinite l3 then c3 else NaN)"
  proof (intro allI impI)
    fix l1 l2 l3 c1 c2 c3
    assume h: "r = Fin 1 \<and> localColor = (l1, l2, l3) \<and> reflectedColor = (c1, c2, c3)"
    then have "\<not> r \<le> Fin 0" by (simp add: less_eq_number_def)
    with a have t: "traceRay (Suc fuel) sc O' D tMin tMax depth
              = Some (add (scale (Fin 1 - r) localColor) (scale r reflectedColor))"
      by blast
    have "machine_vec reflectedColor"
      using assms(6) by (rule traceRay_machine)
    then have m: "machine c1" "machine c2" "machine c3"
      using h by simp_all
    show "traceRay (Suc fuel) sc O' D tMin tMax depth
              = Some (if isFinite l1 then c1 else NaN,
                      if isFinite l2 then c2 else NaN,
                      if isFinite l3 then c3 else NaN)"
      unfolding t using h blend_component[OF m(1), of l1] blend_component[OF m(2), of l2]
        blend_component[OF m(3), of l3]
      by (simp del: traceRay.simps)
  qed
  from a b c d e show ?thesis by blast
qed

theorem traceRay_blend_witness:
  "closestIntersection mirrorScene scenarioOrigin scenarioDir (Fin 1) PInf
     = (Some mirrorSphere, Fin 4) \<and>
   \<not> defaultDepth \<le> Fin 0 \<and>
   reflective mirrorSphere = Fin 1 \<and>
   finite_vec (scale (computeLighting mirrorScene (Fin 0, Fin 0, Fin 4) (Fin 0, Fin 0, Fin (- 1))
                 (Fin 0, Fin 0, Fin (- 1)) (specular mirrorSphere)) (color mirrorSphere)) \<and>
   traceRay (Suc 0) mirrorScene (Fin 0, Fin 0, Fin 4) (Fin 0, Fin 0, Fin (- 1))
     (round64 0.001) PInf (defaultDepth - Fin 1) = Some backgroundColor \<and>
   traceRay (Suc (Suc 0)) mirrorScene scenarioOrigin scenarioDir (Fin 1) PInf defaultDepth
     = Some backgroundColor \<and>
   closestIntersection scenarioScene scenarioOrigin scenarioDir (Fin 1) PInf
     = (Some scenarioSphere, Fin 4) \<and>
   reflective scenarioSphere = Fin 0 \<and>
   traceRay (Suc 0) scenarioScene (Fin 0, Fin 0, Fin 4) (Fin 0, Fin 0, Fin (- 1))
     (round64 0.001) PInf (defaultDepth - Fin 1) = Some backgroundColor \<and>
   traceRay (Suc (Suc 0)) scenarioScene scenarioOrigin scenarioDir (Fin 1) PInf defaultDepth
     = Some (Fin 255, Fin 0, Fin 0)"
proof -
  have d: "\<not> defaultDepth \<le> Fin 0"
    by (simp add: defaultDepth_def less_eq_number_def)
  have r1: "reflective mirrorSphere = Fin 1" and r0: "reflective scenarioSphere = Fin 0"
    by (simp_all add: mirrorSphere_def scenarioSphere_def)
  have f: "finite_vec (scale (computeLighting mirrorScene (Fin 0, Fin 0, Fin 4)
                 (Fin 0, Fin 0, Fin (- 1)) (Fin 0, Fin 0, Fin (- 1)) (specular mirrorSphere))
               (color mirrorSphere))"
    by (simp add: mirror_local)
  have m: "traceRay (Suc (Suc 0)) mirrorScene scenarioOrigin scenarioDir (Fin 1) PInf defaultDepth
     = Some backgroundColor"
    using traceRay_blend[OF mirror_hit refl refl refl refl _ refl d,
        of "Suc 0" backgroundColor] f r1
    by (simp only: mirror_point mirror_normal mirror_view mirror_reflect mirror_bounce simp_thms)
  have s: "traceRay (Suc (Suc 0)) scenarioScene scenarioOrigin scenarioDir (Fin 1) PInf defaultDepth
     = Some (Fin 255, Fin 0, Fin 0)"
    using traceRay_blend[OF scenario_hit refl refl refl refl _ refl d,
        of "Suc 0" backgroundColor] r0
    by (simp only: mirror_point scenario_normal mirror_view mirror_reflect scenario_bounce
        scenario_local simp_thms)
  from d r1 r0 f m s mirror_hit scenario_hit mirror_bounce scenario_bounce show ?thesis
    by blast
qed

theorem traceRay_blend_infinite_light_counterexample:
  "closestIntersection glareScene scenarioOrigin scenarioDir (Fin 1) PInf
     = (Some mirrorSphere, Fin 4) \<and>
   \<not> defaultDepth \<le> Fin 0 \<and> \<not> reflective mirrorSphere \<le> Fin 0 \<and>
   reflective mirrorSphere = Fin 1 \<and>
   traceRay (Suc 0) glareScene (Fin 0, Fin 0, Fin 4) (Fin 0, Fin 0, Fin (- 1))
     (round64 0.001) PInf (defaultDepth - Fin 1) = Some (Fin 0, Fin 0, Fin 0) \<and>
   traceRay (Suc (Suc 0)) glareScene scenarioOrigin scenarioDir (Fin 1) PInf defaultDepth
     = Some (NaN, NaN, NaN)"
proof -
  have d: "\<not> defaultDepth \<le> Fin 0"
    by (simp add: defaultDepth_def less_eq_number_def)
  have r: "reflective mirrorSphere = Fin 1" "\<not> reflective mirrorSphere \<le> Fin 0"
    by (simp_all add: mirrorSphere_def less_eq_number_def)
  have b: "traceRay (Suc 0) glareScene (Fin 0, Fin 0, Fin 4) (Fin 0, Fin 0, Fin (- 1))
     (round64 0.001) PInf (defaultDepth - Fin 1) = Some (Fin 0, Fin 0, Fin 0)"
    using glare_bounce[of 0 "defaultDepth - Fin 1"] by (simp only: backgroundColor_def)
  have "traceRay (Suc (Suc 0)) glareScene scenarioOrigin scenarioDir (Fin 1) PInf defaultDepth
     = (case traceRay (Suc 0) glareScene (Fin 0, Fin 0, Fin 4) (Fin 0, Fin 0, Fin (- 1))
               (round64 0.001) PInf (defaultDepth - Fin 1) of
          None \<Rightarrow> None
        | Some reflectedColor \<Rightarrow>
            Some (add (scale (Fin 1 - reflective mirrorSphere) (PInf, NaN, NaN))
                      (scale (reflective mirrorSphere) reflectedColor)))"
    using traceRay_hit[OF glare_hit refl refl refl refl, of "Suc 0" defaultDepth] d r(2)
    by (simp only: mirror_point mirror_normal mirror_view mirror_reflect glare_local simp_thms
        if_False)
  then have "traceRay (Suc (Suc 0)) glareScene scenarioOrigin scenarioDir (Fin 1) PInf defaultDepth
     = Some (NaN, NaN, NaN)"
    unfolding b r(1) by simp
  with d r b glare_hit show ?thesis
    by blast
qed

text \<open>
  C8. For every depth \<open>d\<close> up to \<open>2\<^sup>5\<^sup>3\<close>, every scene, ray and interval, \<^verbatim>\<open>traceRay\<close>
  returns a colour, and it does so within \<open>\<lceil>d\<rceil> + 1\<close> nested activations (4 for the
  default depth 3, one for the depth \<^verbatim>\<open>-Infinity\<close>); more allowance gives the same
  colour. Each recursive call passes \<open>depth - 1\<close>, which is strictly smaller when the
  depth is positive and at most \<open>2\<^sup>5\<^sup>3\<close>. Beyond that the subtraction may return
  the depth itself: \<open>10\<^sup>1\<^sup>6 - 1\<close> is \<open>10\<^sup>1\<^sup>6\<close>, \<open>Infinity - 1\<close> is \<^verbatim>\<open>Infinity\<close> and
  \<open>NaN - 1\<close> is \<^verbatim>\<open>NaN\<close>, which is not \<open>\<le> 0\<close>; then inside a reflective sphere the
  ray through the centre is reflected for ever, so that no allowance is enough.
\<close>

theorem traceRay_terminates:
  "(d \<le> 2 ^ 53 \<longrightarrow>
      (\<exists>c. \<forall>fuel. nat \<lceil>d\<rceil> < fuel \<longrightarrow> traceRay fuel sc O' D tMin tMax (Fin d) = Some c)) \<and>
   (\<exists>c. \<forall>fuel. 3 < fuel \<longrightarrow> traceRay fuel sc O' D tMin tMax defaultDepth = Some c) \<and>
   (0 < d \<and> d \<le> 2 ^ 53 \<longrightarrow> Fin d - Fin 1 < Fin d) \<and>
   (\<exists>c. \<forall>fuel. 0 < fuel \<longrightarrow> traceRay fuel sc O' D tMin tMax NInf = Some c)"
proof -
  have a: "\<exists>c. \<forall>fuel. nat \<lceil>d\<rceil> < fuel \<longrightarrow> traceRay fuel sc O' D tMin tMax (Fin d) = Some c"
    if "d \<le> 2 ^ 53"
  proof (rule traceRay_enough)
    have "d \<le> real (nat \<lceil>d\<rceil>)"
      by linarith
    then show "Fin d = NInf \<or> (\<exists>e. Fin d = Fin e \<and> e \<le> real (nat \<lceil>d\<rceil>))"
      by simp
    have "d \<le> real_of_int (2 ^ 53)"
      using that by simp
    then have "\<lceil>d\<rceil> \<le> 2 ^ 53"
      by (simp only: ceiling_le_iff)
    then show "real (nat \<lceil>d\<rceil>) \<le> 2 ^ 53"
      by (simp add: of_nat_nat)
  qed
  have "Fin 3 = NInf \<or> (\<exists>e. Fin 3 = Fin e \<and> e \<le> real 3)"
    by simp
  moreover have "real 3 \<le> 2 ^ 53"
    by simp
  ultimately have b:
    "\<exists>c. \<forall>fuel. 3 < fuel \<longrightarrow> traceRay fuel sc O' D tMin tMax defaultDepth = Some c"
    unfolding defaultDepth_def by (rule traceRay_enough)
  have c: "Fin d - Fin 1 < Fin d" if "0 < d" "d \<le> 2 ^ 53"
  proof -
    note h = that
    have "d - 1 \<le> real_of_int (\<lceil>d\<rceil> - 1)"
      by simp
    moreover have "0 \<le> \<lceil>d\<rceil> - 1"
      using h(1) by simp
    moreover have "\<lceil>d\<rceil> - 1 \<le> 2 ^ 53"
    proof -
      have "d \<le> real_of_int (2 ^ 53)"
        using h(2) by simp
      then have "\<lceil>d\<rceil> \<le> 2 ^ 53"
        by (simp only: ceiling_le_iff)
      then show ?thesis
        by simp
    qed
    ultimately have "round64 (d - 1) = NInf \<or>
        (\<exists>y. round64 (d - 1) = Fin y \<and> y \<le> real_of_int (\<lceil>d\<rceil> - 1))"
      by (rule round64_le_int)
    moreover have "real_of_int (\<lceil>d\<rceil> - 1) < d"
      by linarith
    ultimately show ?thesis
      by auto
  qed
  have "NInf = NInf \<or> (\<exists>e. NInf = Fin e \<and> e \<le> real 0)"
    by simp
  moreover have "real 0 \<le> 2 ^ 53"
    by simp
  ultimately have e:
    "\<exists>c. \<forall>fuel. 0 < fuel \<longrightarrow> traceRay fuel sc O' D tMin tMax NInf = Some c"
    by (rule traceRay_enough)
  from a b c e show ?thesis
    by blast
qed

theorem traceRay_terminates_witness:
  "(3::real) \<le> 2 ^ 53 \<and> nat \<lceil>3::real\<rceil> < 4 \<and>
   traceRay 4 scenarioScene scenarioOrigin scenarioDir (Fin 1) PInf (Fin 3)
     = Some (Fin 255, Fin 0, Fin 0) \<and>
   traceRay 4 scenarioScene scenarioOrigin scenarioDir (Fin 1) PInf (Fin 3)
     = traceRay 5 scenarioScene scenarioOrigin scenarioDir (Fin 1) PInf (Fin 3) \<and>
   (0::real) < 3 \<and> Fin 3 - Fin 1 = Fin 2 \<and> Fin 2 < Fin 3"
proof -
  have n: "(3::real) \<le> 2 ^ 53" "nat \<lceil>3::real\<rceil> < 4" "nat \<lceil>3::real\<rceil> < 5" "(0::real) < 3"
    by simp_all
  have m: "Fin 3 - Fin 1 = Fin 2"
    by simp
  note t = traceRay_terminates[of 3 scenarioScene scenarioOrigin scenarioDir "Fin 1" PInf]
  obtain c where c: "\<forall>fuel. nat \<lceil>3::real\<rceil> < fuel \<longrightarrow>
      traceRay fuel scenarioScene scenarioOrigin scenarioDir (Fin 1) PInf (Fin 3) = Some c"
    using t n(1) by blast
  have "traceRay 4 scenarioScene scenarioOrigin scenarioDir (Fin 1) PInf (Fin 3)
     = traceRay 5 scenarioScene scenarioOrigin scenarioDir (Fin 1) PInf (Fin 3)"
    using c n by simp
  moreover have "traceRay 4 scenarioScene scenarioOrigin scenarioDir (Fin 1) PInf (Fin 3)
     = Some (Fin 255, Fin 0, Fin 0)"
    using scenario_color[of 3 "Fin 3"] by (simp add: numeral_eq_Suc del: traceRay.simps)
  moreover have "Fin 2 < Fin 3"
    using t n(1,4) unfolding m by blast
  ultimately show ?thesis
    using n m by blast
qed

theorem traceRay_unbounded_depth_counterexample:
  "PInf - Fin 1 = PInf \<and>
   (\<forall>fuel. traceRay fuel boxScene (Fin 0, Fin 0, Fin 1) (Fin 0, Fin 0, Fin (- 1))
            (round64 0.001) PInf PInf = None) \<and>
   Fin 10000000000000000 - Fin 1 = Fin 10000000000000000 \<and>
   (\<forall>fuel. traceRay fuel boxScene (Fin 0, Fin 0, Fin 1) (Fin 0, Fin 0, Fin (- 1))
            (round64 0.001) PInf (Fin 10000000000000000) = None) \<and>
   NaN - Fin 1 = NaN \<and>
   (\<forall>fuel. traceRay fuel boxScene (Fin 0, Fin 0, Fin 1) (Fin 0, Fin 0, Fin (- 1))
            (round64 0.001) PInf NaN = None)"
  using box_never[OF depth_infinite] box_never[OF depth_large] box_never[OF depth_nan]
    depth_infinite(1) depth_large(1) depth_nan(1)
  by blast

text \<open>
  C4. For a light that is not ambient \<^verbatim>\<open>computeLighting\<close> asks
  \<^verbatim>\<open>closestIntersection(P, L, 0.001, tMax)\<close>, with \<open>L = position - P\<close> and \<open>tMax = 1\<close>
  for a point light, \<open>L = direction\<close> and \<open>tMax = Infinity\<close> for a directional one.
  When a sphere is returned the light leaves the intensity as it was and the loop goes on
  with the next light, so that the intensity of the scene is the intensity of the scene
  without its shadowed lights. When no sphere is returned the light adds its diffuse and
  specular terms.
\<close>

theorem computeLighting_shadow:
  "(fst (closestIntersection sc P (sub position P) (round64 0.001) (Fin 1)) \<noteq> None \<longrightarrow>
      lightStep sc P N V s i (Point intensity position) = i \<and>
      lightingLoop sc P N V s i (Point intensity position # rest)
        = lightingLoop sc P N V s i rest) \<and>
   (fst (closestIntersection sc P direction (round64 0.001) PInf) \<noteq> None \<longrightarrow>
      lightStep sc P N V s i (Directional intensity direction) = i \<and>
      lightingLoop sc P N V s i (Directional intensity direction # rest)
        = lightingLoop sc P N V s i rest) \<and>
   computeLighting sc P N V s =
     computeLighting
       (sc\<lparr>lights :=
          filter (\<lambda>l. case l of
                    Ambient a \<Rightarrow> True
                  | Point a position \<Rightarrow>
                      fst (closestIntersection sc P (sub position P) (round64 0.001) (Fin 1)) = None
                  | Directional a direction \<Rightarrow>
                      fst (closestIntersection sc P direction (round64 0.001) PInf) = None)
            (lights sc)\<rparr>)
       P N V s \<and>
   (fst (closestIntersection sc P (sub position P) (round64 0.001) (Fin 1)) = None \<longrightarrow>
      lightStep sc P N V s i (Point intensity position) =
        (let L = sub position P;
             i1 = (if dot N L > Fin 0
                   then i + intensity * dot N L / (len N * len L) else i)
         in if strict_neq s (Fin (- 1)) \<and> dot (reflectRay L N) V > Fin 0
            then i1 + intensity *
                   math_pow (dot (reflectRay L N) V / (len (reflectRay L N) * len V)) s
            else i1)) \<and>
   (fst (closestIntersection sc P direction (round64 0.001) PInf) = None \<longrightarrow>
      lightStep sc P N V s i (Directional intensity direction) =
        (let L = direction;
             i1 = (if dot N L > Fin 0
                   then i + intensity * dot N L / (len N * len L) else i)
         in if strict_neq s (Fin (- 1)) \<and> dot (reflectRay L N) V > Fin 0
            then i1 + intensity *
                   math_pow (dot (reflectRay L N) V / (len (reflectRay L N) * len V)) s
            else i1))"
proof -
  have a: "fst (closestIntersection sc P (sub position P) (round64 0.001) (Fin 1)) \<noteq> None \<longrightarrow>
      lightStep sc P N V s i (Point intensity position) = i \<and>
      lightingLoop sc P N V s i (Point intensity position # rest)
        = lightingLoop sc P N V s i rest"
    using lightStep_point_shadow[of sc P position N V s i intensity]
    by (simp del: lightStep.simps)
  have b: "fst (closestIntersection sc P direction (round64 0.001) PInf) \<noteq> None \<longrightarrow>
      lightStep sc P N V s i (Directional intensity direction) = i \<and>
      lightingLoop sc P N V s i (Directional intensity direction # rest)
        = lightingLoop sc P N V s i rest"
    using lightStep_directional_shadow[of sc P direction N V s i intensity]
    by (simp del: lightStep.simps)
  have c: "computeLighting sc P N V s =
     computeLighting
       (sc\<lparr>lights :=
          filter (\<lambda>l. case l of
                    Ambient a \<Rightarrow> True
                  | Point a position \<Rightarrow>
                      fst (closestIntersection sc P (sub position P) (round64 0.001) (Fin 1)) = None
                  | Directional a direction \<Rightarrow>
                      fst (closestIntersection sc P direction (round64 0.001) PInf) = None)
            (lights sc)\<rparr>)
       P N V s"
    by (simp add: computeLighting_def lightingLoop_lights lightingLoop_lit)
  have d: "fst (closestIntersection sc P (sub position P) (round64 0.001) (Fin 1)) = None \<longrightarrow>
      lightStep sc P N V s i (Point intensity position) =
        (let L = sub position P;
             i1 = (if dot N L > Fin 0
                   then i + intensity * dot N L / (len N * len L) else i)
         in if strict_neq s (Fin (- 1)) \<and> dot (reflectRay L N) V > Fin 0
            then i1 + intensity *
                   math_pow (dot (reflectRay L N) V / (len (reflectRay L N) * len V)) s
            else i1)"
    using lightStep_lit[of sc P "sub position P" "Fin 1" "Point intensity position" intensity
        position N V s i]
    by (simp add: Let_def del: lightStep.simps)
  have e: "fst (closestIntersection sc P direction (round64 0.001) PInf) = None \<longrightarrow>
      lightStep sc P N V s i (Directional intensity direction) =
        (let L = direction;
             i1 = (if dot N L > Fin 0
                   then i + intensity * dot N L / (len N * len L) else i)
         in if strict_neq s (Fin (- 1)) \<and> dot (reflectRay L N) V > Fin 0
            then i1 + intensity *
                   math_pow (dot (reflectRay L N) V / (len (reflectRay L N) * len V)) s
            else i1)"
    using lightStep_lit[of sc P direction PInf "Directional intensity direction" intensity
        position N V s i]
    by (simp add: Let_def del: lightStep.simps)
  from a b c d e show ?thesis by blast
qed

theorem computeLighting_shadow_witness:
  "fst (closestIntersection shadowScene scenarioOrigin
          (sub (Fin 0, Fin 0, Fin 8) scenarioOrigin) (round64 0.001) (Fin 1)) \<noteq> None \<and>
   lightStep shadowScene scenarioOrigin (Fin 0, Fin 0, Fin (- 1)) (Fin 0, Fin 0, Fin (- 1))
     (Fin 500) (Fin 7) (Point (Fin 1) (Fin 0, Fin 0, Fin 8)) = Fin 7 \<and>
   fst (closestIntersection shadowScene scenarioOrigin scenarioDir (round64 0.001) PInf) \<noteq> None \<and>
   lightStep shadowScene scenarioOrigin (Fin 0, Fin 0, Fin (- 1)) (Fin 0, Fin 0, Fin (- 1))
     (Fin 500) (Fin 7) (Directional (Fin 1) scenarioDir) = Fin 7 \<and>
   computeLighting shadowScene scenarioOrigin (Fin 0, Fin 0, Fin (- 1)) (Fin 0, Fin 0, Fin (- 1))
     (Fin 500) = Fin 0 \<and>
   fst (closestIntersection shadowScene scenarioOrigin
          (sub (Fin 0, Fin 0, Fin 1) scenarioOrigin) (round64 0.001) (Fin 1)) = None \<and>
   lightStep shadowScene scenarioOrigin (Fin 0, Fin 0, Fin 1) (Fin 0, Fin 0, Fin (- 1))
     (Fin (- 1)) (Fin 7) (Point (Fin 1) (Fin 0, Fin 0, Fin 1)) = Fin 8 \<and>
   fst (closestIntersection shadowScene scenarioOrigin (Fin 0, Fin 1, Fin 0) (round64 0.001) PInf)
     = None \<and>
   lightStep shadowScene scenarioOrigin (Fin 0, Fin 1, Fin 0) (Fin 0, Fin 0, Fin (- 1))
     (Fin (- 1)) (Fin 7) (Directional (Fin 1) (Fin 0, Fin 1, Fin 0)) = Fin 8"
proof -
  have u: "fst (closestIntersection shadowScene scenarioOrigin
          (sub (Fin 0, Fin 0, Fin 1) scenarioOrigin) (round64 0.001) (Fin 1)) = None"
    unfolding shadow_near_miss by simp
  have su: "lightStep shadowScene scenarioOrigin (Fin 0, Fin 0, Fin 1) (Fin 0, Fin 0, Fin (- 1))
     (Fin (- 1)) (Fin 7) (Point (Fin 1) (Fin 0, Fin 0, Fin 1)) = Fin 8"
    using computeLighting_shadow[of shadowScene scenarioOrigin "(Fin 0, Fin 0, Fin 1)"
      "(Fin 0, Fin 0, Fin 1)" "(Fin 0, Fin 0, Fin (- 1))" "Fin (- 1)" "Fin 7" "Fin 1" "[]"
      scenarioDir] u
    by (simp add: scenarioOrigin_def len_def strict_neq_def del: lightStep.simps)
  have v: "fst (closestIntersection shadowScene scenarioOrigin (Fin 0, Fin 1, Fin 0)
             (round64 0.001) PInf) = None"
    unfolding shadow_side_miss by simp
  have sv: "lightStep shadowScene scenarioOrigin (Fin 0, Fin 1, Fin 0) (Fin 0, Fin 0, Fin (- 1))
     (Fin (- 1)) (Fin 7) (Directional (Fin 1) (Fin 0, Fin 1, Fin 0)) = Fin 8"
    using computeLighting_shadow[of shadowScene scenarioOrigin "(Fin 0, Fin 0, Fin 1)"
      "(Fin 0, Fin 1, Fin 0)" "(Fin 0, Fin 0, Fin (- 1))" "Fin (- 1)" "Fin 7" "Fin 1" "[]"
      "(Fin 0, Fin 1, Fin 0)"] v
    by (simp add: len_def strict_neq_def del: lightStep.simps)
  have p: "fst (closestIntersection shadowScene scenarioOrigin
          (sub (Fin 0, Fin 0, Fin 8) scenarioOrigin) (round64 0.001) (Fin 1)) \<noteq> None"
    unfolding shadow_point_hit by simp
  have d: "fst (closestIntersection shadowScene scenarioOrigin scenarioDir (round64 0.001) PInf)
             \<noteq> None"
    unfolding shadow_directional_hit by simp
  note t7 = computeLighting_shadow[of shadowScene scenarioOrigin "(Fin 0, Fin 0, Fin 8)"
      "(Fin 0, Fin 0, Fin (- 1))" "(Fin 0, Fin 0, Fin (- 1))" "Fin 500" "Fin 7" "Fin 1" "[]"
      scenarioDir]
  note t1 = computeLighting_shadow[of shadowScene scenarioOrigin "(Fin 0, Fin 0, Fin 8)"
      "(Fin 0, Fin 0, Fin (- 1))" "(Fin 0, Fin 0, Fin (- 1))" "Fin 500" "Fin 0" "Fin 1"
      "[Directional (Fin 1) scenarioDir]" scenarioDir]
  note t0 = computeLighting_shadow[of shadowScene scenarioOrigin "(Fin 0, Fin 0, Fin 8)"
      "(Fin 0, Fin 0, Fin (- 1))" "(Fin 0, Fin 0, Fin (- 1))" "Fin 500" "Fin 0" "Fin 1" "[]"
      scenarioDir]
  have l: "lights shadowScene
             = [Point (Fin 1) (Fin 0, Fin 0, Fin 8), Directional (Fin 1) scenarioDir]"
    by (simp add: shadowScene_def scenarioDir_def)
  have "lightingLoop shadowScene scenarioOrigin (Fin 0, Fin 0, Fin (- 1)) (Fin 0, Fin 0, Fin (- 1))
          (Fin 500) (Fin 0) [Point (Fin 1) (Fin 0, Fin 0, Fin 8), Directional (Fin 1) scenarioDir]
        = lightingLoop shadowScene scenarioOrigin (Fin 0, Fin 0, Fin (- 1))
          (Fin 0, Fin 0, Fin (- 1)) (Fin 500) (Fin 0) [Directional (Fin 1) scenarioDir]"
    using t1 p by blast
  also have "\<dots> = lightingLoop shadowScene scenarioOrigin (Fin 0, Fin 0, Fin (- 1))
          (Fin 0, Fin 0, Fin (- 1)) (Fin 500) (Fin 0) []"
    using t0 d by blast
  finally have c: "computeLighting shadowScene scenarioOrigin (Fin 0, Fin 0, Fin (- 1))
     (Fin 0, Fin 0, Fin (- 1)) (Fin 500) = Fin 0"
    by (simp only: computeLighting_def l lightingLoop.simps)
  from t7 p d c u su v sv show ?thesis
    by blast
qed




text \<open>
  C10. About a coordinate axis as normal, of either sign, \<^verbatim>\<open>reflectRay\<close> is an
  involution: the product of the normal with itself is 1, and for every vector \<open>R\<close> of
  finite doubles of magnitude below \<open>2\<^sup>1\<^sup>0\<^sup>2\<^sup>3\<close> the reflection of the reflection of
  \<open>R\<close> is \<open>R\<close>, component by component. About another normal whose product with
  itself is 1 this fails by rounding: about (0.6, 0.8, 0) the vector (0, 1, 0) comes back
  as (\<open>2\<^sup>-\<^sup>5\<^sup>2\<close>, 1, 0). It fails about an axis as well when the doubling overflows or
  a component is infinite: \<open>(2\<^sup>1\<^sup>0\<^sup>2\<^sup>3, 0, 0)\<close> and \<^verbatim>\<open>(Infinity, 0, 0)\<close> come back from
  the normal (1, 0, 0) as three \<^verbatim>\<open>NaN\<close>.
\<close>

theorem reflectRay_involution:
  assumes "N = (Fin s, Fin 0, Fin 0) \<or> N = (Fin 0, Fin s, Fin 0) \<or> N = (Fin 0, Fin 0, Fin s)"
    and "s = 1 \<or> s = - 1"
    and "R = (Fin r1, Fin r2, Fin r3)"
    and "machine_vec R"
    and "\<bar>r1\<bar> < 2 ^ 1023" and "\<bar>r2\<bar> < 2 ^ 1023" and "\<bar>r3\<bar> < 2 ^ 1023"
  shows "dot N N = Fin 1 \<and> reflectRay (reflectRay R N) N = R"
proof -
  have m: "round64 r1 = Fin r1" "round64 r2 = Fin r2" "round64 r3 = Fin r3"
    using assms(3,4) by simp_all
  note n = machine_neg[OF m(1)] machine_neg[OF m(2)] machine_neg[OF m(3)]
  have x: "reflectRay (reflectRay R (Fin s, Fin 0, Fin 0)) (Fin s, Fin 0, Fin 0) = R"
    unfolding assms(3) reflect_axis_x[OF assms(2) m assms(5)]
    using reflect_axis_x[OF assms(2) m(1) n(2) n(3) assms(5)] by simp
  have y: "reflectRay (reflectRay R (Fin 0, Fin s, Fin 0)) (Fin 0, Fin s, Fin 0) = R"
    unfolding assms(3) reflect_axis_y[OF assms(2) m assms(6)]
    using reflect_axis_y[OF assms(2) n(1) m(2) n(3) assms(6)] by simp
  have z: "reflectRay (reflectRay R (Fin 0, Fin 0, Fin s)) (Fin 0, Fin 0, Fin s) = R"
    unfolding assms(3) reflect_axis_z[OF assms(2) m assms(7)]
    using reflect_axis_z[OF assms(2) n(1) n(2) m(3) assms(7)] by simp
  from x y z axis_unit[OF assms(2)] assms(1) show ?thesis
    by auto
qed

theorem reflectRay_involution_witness:
  "machine_vec (Fin 1, Fin 2, Fin 3) \<and>
   \<bar>1::real\<bar> < 2 ^ 1023 \<and> \<bar>2::real\<bar> < 2 ^ 1023 \<and> \<bar>3::real\<bar> < 2 ^ 1023 \<and>
   dot (Fin 0, Fin 0, Fin (- 1)) (Fin 0, Fin 0, Fin (- 1)) = Fin 1 \<and>
   reflectRay (reflectRay (Fin 1, Fin 2, Fin 3) (Fin 0, Fin 0, Fin (- 1))) (Fin 0, Fin 0, Fin (- 1))
     = (Fin 1, Fin 2, Fin 3)"
  using reflectRay_involution[of "(Fin 0, Fin 0, Fin (- 1))" "- 1" "(Fin 1, Fin 2, Fin 3)" 1 2 3]
  by simp

theorem reflectRay_rounding_counterexample:
  "dot (round64 0.6, round64 0.8, Fin 0) (round64 0.6, round64 0.8, Fin 0) = Fin 1 \<and>
   reflectRay (reflectRay (Fin 0, Fin 1, Fin 0) (round64 0.6, round64 0.8, Fin 0))
              (round64 0.6, round64 0.8, Fin 0)
     = (Fin (1 / 2 ^ 52), Fin 1, Fin 0) \<and>
   dot (Fin 1, Fin 0, Fin 0) (Fin 1, Fin 0, Fin 0) = Fin 1 \<and>
   round64 (2 ^ 1023) = Fin (2 ^ 1023) \<and>
   reflectRay (reflectRay (Fin (2 ^ 1023), Fin 0, Fin 0) (Fin 1, Fin 0, Fin 0)) (Fin 1, Fin 0, Fin 0)
     = (NaN, NaN, NaN) \<and>
   reflectRay (reflectRay (PInf, Fin 0, Fin 0) (Fin 1, Fin 0, Fin 0)) (Fin 1, Fin 0, Fin 0)
     = (NaN, NaN, NaN)"
proof -
  have a: "reflectRay (reflectRay (Fin 0, Fin 1, Fin 0) (round64 0.6, round64 0.8, Fin 0))
              (round64 0.6, round64 0.8, Fin 0)
     = (Fin (1 / 2 ^ 52), Fin 1, Fin 0)"
    unfolding skew_once skew_twice by simp
  have b: "reflectRay (reflectRay (Fin (2 ^ 1023), Fin 0, Fin 0) (Fin 1, Fin 0, Fin 0))
              (Fin 1, Fin 0, Fin 0) = (NaN, NaN, NaN)"
    unfolding overflow_once overflow_twice ..
  have c: "reflectRay (reflectRay (PInf, Fin 0, Fin 0) (Fin 1, Fin 0, Fin 0)) (Fin 1, Fin 0, Fin 0)
     = (NaN, NaN, NaN)"
    unfolding infinite_once infinite_twice ..
  have d: "dot (Fin 1, Fin 0, Fin 0) (Fin 1, Fin 0, Fin 0) = Fin 1"
    by simp
  from a b c d skew_normal round64_top show ?thesis
    by blast
qed

end
